theory Spec2Isabelle
  imports Complex_Main
begin

section \<open>Strings\<close>

text \<open>
  The manager matches abilities by substring search on lower-cased descriptions
  (\<^verbatim>\<open>"reduce" in hero["passive"].lower()\<close>).  Characters are bytes here, so
  \<open>lower\<close> is Python's \<^verbatim>\<open>str.lower\<close> on ASCII text, which is what the hero pool
  of \<^verbatim>\<open>team_generation_agent.py\<close> consists of.
\<close>

definition lower_char :: "char \<Rightarrow> char" where
  "lower_char c =
     (case map_of (zip ''ABCDEFGHIJKLMNOPQRSTUVWXYZ'' ''abcdefghijklmnopqrstuvwxyz'') c of
        None \<Rightarrow> c
      | Some l \<Rightarrow> l)"

definition lower :: "string \<Rightarrow> string" where
  "lower s = map lower_char s"

fun starts_with :: "string \<Rightarrow> string \<Rightarrow> bool" where
  "starts_with [] ys = True"
| "starts_with (x # xs) [] = False"
| "starts_with (x # xs) (y # ys) = (x = y \<and> starts_with xs ys)"

text \<open>\<open>contains_str sub s\<close> is Python's \<^verbatim>\<open>sub in s\<close> on strings.\<close>

fun contains_str :: "string \<Rightarrow> string \<Rightarrow> bool" where
  "contains_str sub [] = (sub = [])"
| "contains_str sub (y # ys) = (starts_with sub (y # ys) \<or> contains_str sub ys)"

section \<open>Python's \<^verbatim>\<open>int(n * c)\<close> for an integer and a float constant\<close>

text \<open>
  The resolver computes \<^verbatim>\<open>int(damage_to_take * 0.30)\<close>, \<^verbatim>\<open>int(damage_to_take * 0.70)\<close>
  and \<^verbatim>\<open>int(attacker_ap * 1.4)\<close>.  Python converts the integer to a binary64 float
  (round to nearest, ties to even; \<^verbatim>\<open>OverflowError\<close> from \<open>2 ^ 1024\<close> on), multiplies in
  binary64 and truncates towards zero (\<^verbatim>\<open>int\<close> of an infinite product raises
  \<^verbatim>\<open>OverflowError\<close> too).  The rounding is written out on natural numbers: a float
  constant is its 53-bit significand \<open>M\<close> and the exponent \<open>E\<close> with value \<open>M / 2 ^ E\<close>.
\<close>

datatype py_error = OverflowError | KeyError | ValueError | ZeroDivisionError

fun bit_length :: "nat \<Rightarrow> nat" where
  "bit_length n = (if n = 0 then 0 else Suc (bit_length (n div 2)))"

declare bit_length.simps [simp del]

definition round_half_even :: "nat \<Rightarrow> nat \<Rightarrow> nat" where
  "round_half_even p k =
     (let q = p div 2 ^ k; r = p mod 2 ^ k
      in if 2 ^ k < 2 * r \<or> (2 * r = 2 ^ k \<and> odd q) then q + 1 else q)"

text \<open>
  \<open>to_binary64 p = (m, k)\<close>: the number \<open>m * 2 ^ k\<close> is \<open>p\<close> rounded to 53 significant
  bits.
\<close>

definition to_binary64 :: "nat \<Rightarrow> nat \<times> nat" where
  "to_binary64 p =
     (let b = bit_length p
      in if b \<le> 53 then (p, 0) else (round_half_even p (b - 53), b - 53))"

type_synonym float_const = "nat \<times> nat"

definition c_030 :: float_const where "c_030 = (5404319552844595, 54)"
definition c_070 :: float_const where "c_070 = (6305039478318694, 53)"
definition c_140 :: float_const where "c_140 = (6305039478318694, 52)"

definition py_int_mul :: "int \<Rightarrow> float_const \<Rightarrow> py_error + int" where
  "py_int_mul n c =
     (case c of (M, E) \<Rightarrow>
        (case to_binary64 (nat \<bar>n\<bar>) of (m1, k1) \<Rightarrow>
           if 2 ^ 1024 \<le> m1 * 2 ^ k1 then Inl OverflowError
           else (case to_binary64 (m1 * M) of (m2, k2) \<Rightarrow>
             if 2 ^ (1024 + E) \<le> m2 * 2 ^ (k1 + k2) then Inl OverflowError
             else Inr (sgn n * int ((m2 * 2 ^ (k1 + k2)) div 2 ^ E)))))"

section \<open>Binary64 arithmetic\<close>

text \<open>
  Python's \<^verbatim>\<open>float\<close> is IEEE 754 binary64.  A finite float is modelled by the real number
  it denotes (so \<^verbatim>\<open>0.0\<close> and \<^verbatim>\<open>-0.0\<close> are the same value, as they are for \<^verbatim>\<open>==\<close> and
  \<^verbatim>\<open><\<close>), and an operation returns the float nearest to its exact result, ties going to
  the even significand: \<open>float64 x\<close> is that float.  Its spacing near \<open>x\<close> is
  \<open>2 powi q\<close> with \<open>q = ilog2 \<bar>x\<bar> - 52\<close>, and \<open>2 powi (- 1074)\<close> in the subnormal range;
  \<open>ilog2 x\<close> is the integer part of the binary logarithm of \<open>x > 0\<close>.  The exponent is not
  bounded above here: a result of \<open>2 ^ 1024\<close> or more stands for an overflow, which
  \<^verbatim>\<open>int / int\<close> turns into \<^verbatim>\<open>OverflowError\<close>.  So \<^verbatim>\<open>x * y\<close>, \<^verbatim>\<open>x + y\<close> and \<^verbatim>\<open>x / y\<close> on
  floats are \<open>float64 (x * y)\<close>, \<open>float64 (x + y)\<close> and \<open>float64 (x / y)\<close>, \<^verbatim>\<open>math.sqrt(x)\<close>
  is \<open>float64 (sqrt x)\<close>, and a literal such as \<^verbatim>\<open>0.7\<close> is \<open>float64 (7 / 10)\<close>.
\<close>

definition round_even :: "real \<Rightarrow> int" where
  "round_even y =
     (let f = \<lfloor>y\<rfloor>; d = y - of_int f
      in if d < 1 / 2 \<or> (d = 1 / 2 \<and> even f) then f else f + 1)"

definition ilog2 :: "real \<Rightarrow> int" where
  "ilog2 x = (if 1 \<le> x then int (bit_length (nat \<lfloor>x\<rfloor>)) - 1
              else - int (bit_length (nat (\<lceil>1 / x\<rceil> - 1))))"

definition float64 :: "real \<Rightarrow> real" where
  "float64 x =
     (if x = 0 then 0
      else let q = max (ilog2 \<bar>x\<bar> - 52) (- 1074)
           in sgn x * (of_int (round_even (\<bar>x\<bar> / 2 powi q)) * 2 powi q))"

text \<open>
  \<^verbatim>\<open>a / b\<close> on two integers: the quotient correctly rounded, \<^verbatim>\<open>ZeroDivisionError\<close> for a
  zero divisor and \<^verbatim>\<open>OverflowError\<close> when the result is too large for a float.
\<close>

definition py_true_div :: "int \<Rightarrow> int \<Rightarrow> py_error + real" where
  "py_true_div a b =
     (if b = 0 then Inl ZeroDivisionError
      else let r = float64 (of_int a / of_int b)
           in if 2 ^ 1024 \<le> \<bar>r\<bar> then Inl OverflowError else Inr r)"

section \<open>Heroes and rosters\<close>

datatype status = Alive | Dead

record hero =
  idx :: nat
  name :: string
  health :: int
  attack_power :: int
  status :: status
  revealed :: bool
  subtle_shield :: bool
  accumulated_damage :: int
  buff_threshold :: int
  passive_skill :: string
  active_skill :: string

text \<open>
  \<^verbatim>\<open>my_team\<close> is a dict filled by \<^verbatim>\<open>initialize_team\<close> with the keys \<open>0, 1, ...\<close> in
  order, so a roster is the list of its values and the key of a hero is its place in the
  list.  The hero dicts are mutable objects shared by reference; a reference into the
  roster is modelled by the hero's key.  The fields \<^verbatim>\<open>passive\<close> and \<^verbatim>\<open>active\<close> are
  \<open>passive_skill\<close> and \<open>active_skill\<close> here.
\<close>

type_synonym team = "hero list"

definition in_team :: "team \<Rightarrow> int \<Rightarrow> bool" where
  "in_team t p = (0 \<le> p \<and> nat p < length t)"

record hero_info =
  info_passive :: string
  info_active :: string
  initial_health :: "int option"
  initial_attack_power :: "int option"

definition new_hero :: "nat \<Rightarrow> string \<times> hero_info \<Rightarrow> hero" where
  "new_hero i entry =
     (case entry of (nm, hero_info) \<Rightarrow>
        \<lparr> idx = i, name = nm,
          health = (case initial_health hero_info of None \<Rightarrow> 400 | Some v \<Rightarrow> v),
          attack_power = (case initial_attack_power hero_info of None \<Rightarrow> 200 | Some v \<Rightarrow> v),
          status = Alive, revealed = False, subtle_shield = False,
          accumulated_damage = 0, buff_threshold = 200,
          passive_skill = info_passive hero_info, active_skill = info_active hero_info \<rparr>)"

definition initialize_team :: "(string \<times> hero_info) list \<Rightarrow> team" where
  "initialize_team generated_team_data =
     map (\<lambda>(i, entry). new_hero i entry) (enumerate 0 generated_team_data)"

definition check_death :: "hero \<Rightarrow> hero" where
  "check_death h = (if health h \<le> 0 then h\<lparr>health := 0, status := Dead\<rparr> else h)"

definition lose_health :: "int \<Rightarrow> hero \<Rightarrow> hero" where
  "lose_health d h = check_death (h\<lparr>health := health h - d\<rparr>)"

definition update_hero_stats :: "team \<Rightarrow> int \<Rightarrow> int \<Rightarrow> team" where
  "update_hero_stats t target_id damage_amount =
     (if \<not> in_team t target_id then t
      else t[nat target_id := lose_health damage_amount (t ! nat target_id)])"

definition passive_has :: "string \<Rightarrow> hero \<Rightarrow> bool" where
  "passive_has kw h = contains_str kw (lower (passive_skill h))"

section \<open>Internal skills and action selection\<close>

text \<open>
  The reply of the action-selection LLM chain: a JSON object whose fields may be missing
  or null, or an exception raised by the chain.
\<close>

record response =
  selected_hero_id :: "int option"
  hero_name :: "string option"
  selected_skill :: "string option"
  target_type :: "string option"
  teammate_target_id :: "int option"

datatype chain_reply = ChainRaises | ChainReturns response

text \<open>
  \<^verbatim>\<open>_execute_internal_skill\<close>: every path returns \<^verbatim>\<open>None\<close>, so the result is the roster
  alone; \<open>Inl\<close> is the exception that \<^verbatim>\<open>select_hero_for_turn\<close> catches (a key that is
  not in \<^verbatim>\<open>my_team\<close>, raised before anything is written).  The caller has already
  lower-cased \<^verbatim>\<open>selected_skill\<close> and looked \<^verbatim>\<open>selected_hero_id\<close> up, so both are given.
\<close>

definition execute_internal_skill ::
  "team \<Rightarrow> int \<Rightarrow> string \<Rightarrow> int option \<Rightarrow> py_error + team" where
  "execute_internal_skill t actor_id skill_text target_opt =
     (let skill = lower skill_text in
      case target_opt of
        None \<Rightarrow> Inr t
      | Some target_id \<Rightarrow>
          if \<not> in_team t target_id then Inl KeyError
          else if \<not> in_team t actor_id then Inl KeyError
          else if contains_str ''infight'' skill then
            (if target_id = actor_id then Inr t
             else
               let t1 = t[nat target_id := lose_health 75 (t ! nat target_id)];
                   actor = t1 ! nat actor_id
               in Inr (t1[nat actor_id := actor\<lparr>attack_power := attack_power actor + 140\<rparr>]))
          else if contains_str ''subtle'' skill then
            (let target = t ! nat target_id
             in Inr (t[nat target_id :=
                        target\<lparr>subtle_shield := True,
                               attack_power := attack_power target + 20\<rparr>]))
          else Inr t)"

text \<open>
  What \<^verbatim>\<open>select_hero_for_turn\<close> returns: \<^verbatim>\<open>{"status": "DEFEAT"}\<close>, \<^verbatim>\<open>None\<close>,
  \<^verbatim>\<open>{"status": "ERROR"}\<close>, or the response with \<^verbatim>\<open>current_ap\<close> added and the status
  \<^verbatim>\<open>"INTERNAL ACTION"\<close> or \<^verbatim>\<open>"ACTIVE"\<close>.
\<close>

datatype decision =
    Defeat
  | ReturnedNone
  | Error
  | InternalAction response int
  | Active response int

definition alive_heroes :: "team \<Rightarrow> hero list" where
  "alive_heroes t = filter (\<lambda>h. status h = Alive) t"

definition select_hero_for_turn :: "team \<Rightarrow> chain_reply \<Rightarrow> decision \<times> team" where
  "select_hero_for_turn t reply =
     (if alive_heroes t = [] then (Defeat, t)
      else case reply of
        ChainRaises \<Rightarrow> (Error, t)
      | ChainReturns r \<Rightarrow>
          (case selected_hero_id r of
             None \<Rightarrow> (ReturnedNone, t)
           | Some hero_id \<Rightarrow>
               if \<not> in_team t hero_id then (ReturnedNone, t)
               else
                 let current_ap = attack_power (t ! nat hero_id) in
                 case selected_skill r of
                   None \<Rightarrow> (Error, t)
                 | Some sk \<Rightarrow>
                     if target_type r = Some ''enemy'' \<and>
                        (contains_str ''infight'' (lower sk) \<or> contains_str ''subtle'' (lower sk))
                     then (ReturnedNone, t)
                     else if target_type r = Some ''teammate'' then
                       (case execute_internal_skill t hero_id sk (teammate_target_id r) of
                          Inl e \<Rightarrow> (Error, t)
                        | Inr t' \<Rightarrow> (InternalAction r current_ap, t'))
                     else (Active r current_ap, t)))"

section \<open>Incoming attacks\<close>

record attack_info =
  target_position :: int
  guessed_identity :: string
  skill :: string
  attacker_ap :: int

text \<open>The parsed skill has the fields and types of the class \<^verbatim>\<open>SkillAttributes\<close>.\<close>

record skill_attributes =
  damage_amount :: int
  is_aoe :: bool
  targets_lowest :: bool

text \<open>
  The skill-parsing LLM chain is a parameter: from the skill text, the attacker's attack
  power and the target's health to the parsed skill, \<open>None\<close> when the chain raises
  (\<^verbatim>\<open>_parse_skill_with_llm\<close> catches that and returns \<^verbatim>\<open>None\<close>).  The prompt is an
  f-string that holds \<^verbatim>\<open>int(1.4* attacker_current_ap)\<close>, evaluated before the \<^verbatim>\<open>try\<close>.
\<close>

type_synonym skill_parser = "string \<Rightarrow> int \<Rightarrow> int \<Rightarrow> skill_attributes option"

definition parse_skill_with_llm ::
  "skill_parser \<Rightarrow> string \<Rightarrow> int \<Rightarrow> int \<Rightarrow> py_error + skill_attributes option" where
  "parse_skill_with_llm llm skill_description attacker_current_ap target_current_health =
     (case py_int_mul attacker_current_ap c_140 of
        Inl e \<Rightarrow> Inl e
      | Inr v \<Rightarrow> Inr (llm skill_description attacker_current_ap target_current_health))"

record feedback =
  guess_correct :: bool
  actual_identity :: "string option"
  counter_damage :: int
  target_health :: int
  target_status :: status
  all_dead_positions :: "nat list"

text \<open>The first correct guess: every hero that is alive loses 50 health.\<close>

definition global_damage :: "team \<Rightarrow> team" where
  "global_damage t = map (\<lambda>h. if status h = Alive then lose_health 50 h else h) t"

definition alive_positions :: "team \<Rightarrow> nat list" where
  "alive_positions t = filter (\<lambda>j. status (t ! j) = Alive) [0..<length t]"

text \<open>Python's \<^verbatim>\<open>min(alive_mates, key=...)\<close> returns the first hero of minimal health.\<close>

fun lowest_hp :: "team \<Rightarrow> nat \<Rightarrow> nat list \<Rightarrow> nat" where
  "lowest_hp t best [] = best"
| "lowest_hp t best (j # js) =
     lowest_hp t (if health (t ! j) < health (t ! best) then j else best) js"

text \<open>The other heroes of the roster that are alive, as the Deflect and Counter passives
  select them: by comparing the \<^verbatim>\<open>idx\<close> fields.\<close>

definition alive_mates :: "team \<Rightarrow> hero \<Rightarrow> nat list" where
  "alive_mates t h =
     filter (\<lambda>j. status (t ! j) = Alive \<and> idx (t ! j) \<noteq> idx h) [0..<length t]"

definition share_damage :: "int \<Rightarrow> team \<Rightarrow> nat list \<Rightarrow> team" where
  "share_damage damage_per_mate t mates =
     foldl (\<lambda>t' j. t'[j := lose_health damage_per_mate (t' ! j)]) t mates"

text \<open>
  The Reduce and Deflect steps of one target.  \<open>rnd\<close> is the stream of values that
  \<^verbatim>\<open>random.random()\<close> returns during this attack and \<open>k\<close> the number of values drawn so
  far; Python draws only for a hero whose passive holds "reduce".  The result is the
  roster after the teammates took their share, the number of draws, and
  \<^verbatim>\<open>damage_to_take\<close>.
\<close>

definition deflect_step :: "team \<Rightarrow> nat \<Rightarrow> int \<Rightarrow> py_error + team \<times> int" where
  "deflect_step t i damage_to_take =
     (let hero = t ! i in
      if passive_has ''deflect'' hero \<and> 0 < damage_to_take then
        (case py_int_mul damage_to_take c_030 of
           Inl e \<Rightarrow> Inl e
         | Inr self_damage \<Rightarrow>
             (case py_int_mul damage_to_take c_070 of
                Inl e \<Rightarrow> Inl e
              | Inr share_damage_total \<Rightarrow>
                  let mates = alive_mates t hero in
                  if mates \<noteq> []
                  then Inr (share_damage (share_damage_total div int (length mates)) t mates,
                            self_damage)
                  else Inr (t, self_damage)))
      else Inr (t, damage_to_take))"

definition reduce_deflect_step ::
  "(nat \<Rightarrow> real) \<Rightarrow> team \<Rightarrow> nat \<Rightarrow> nat \<Rightarrow> int \<Rightarrow> py_error + team \<times> nat \<times> int" where
  "reduce_deflect_step rnd t k i raw_damage =
     (if passive_has ''reduce'' (t ! i) then
        (if rnd k < 3 / 10 then Inr (t, k + 1, 0)
         else (case deflect_step t i raw_damage of
                 Inl e \<Rightarrow> Inl e
               | Inr (t', d) \<Rightarrow> Inr (t', k + 1, d)))
      else (case deflect_step t i raw_damage of
              Inl e \<Rightarrow> Inl e
            | Inr (t', d) \<Rightarrow> Inr (t', k, d)))"

text \<open>The Subtle shield: the damage becomes \<^verbatim>\<open>int(damage_to_take * 0.30)\<close> and the shield
  is consumed.\<close>

definition shield_step :: "team \<Rightarrow> nat \<Rightarrow> int \<Rightarrow> py_error + team \<times> int" where
  "shield_step t i damage_to_take =
     (let hero = t ! i in
      if subtle_shield hero \<and> 0 < damage_to_take then
        (case py_int_mul damage_to_take c_030 of
           Inl e \<Rightarrow> Inl e
         | Inr d \<Rightarrow> Inr (t[i := hero\<lparr>subtle_shield := False\<rparr>], d))
      else Inr (t, damage_to_take))"

text \<open>
  The rest of the loop body for the target \<open>i\<close>, after Reduce, Deflect and the shield
  fixed \<^verbatim>\<open>damage_to_take\<close>: the damage is applied, then the Deflect tracker, Counter,
  Explode and Heal follow, and the death check ends the iteration.  The second component
  is \<^verbatim>\<open>total_counter_damage\<close> (\<open>tcd\<close>).
\<close>

definition apply_damage :: "int \<Rightarrow> hero \<Rightarrow> hero" where
  "apply_damage damage_to_take h =
     (if 0 < damage_to_take then h\<lparr>health := health h - damage_to_take\<rparr> else h)"

definition deflect_tracker :: "int \<Rightarrow> hero \<Rightarrow> hero" where
  "deflect_tracker damage_to_take h =
     (if passive_has ''deflect'' h then
        (let h1 = h\<lparr>accumulated_damage := accumulated_damage h + damage_to_take\<rparr>
         in if buff_threshold h1 \<le> accumulated_damage h1
            then h1\<lparr>attack_power := attack_power h1 + 40,
                    buff_threshold := buff_threshold h1 + 200\<rparr>
            else h1)
      else h)"

definition counter_bonus :: "team \<Rightarrow> hero \<Rightarrow> int" where
  "counter_bonus t h =
     (if passive_has ''counter'' h \<and> list_ex (\<lambda>j. health (t ! j) < 120) (alive_mates t h)
      then 30 else 0)"

definition explode_bonus :: "int \<Rightarrow> hero \<Rightarrow> int" where
  "explode_bonus damage_to_take h =
     (if passive_has ''explode'' h \<and> 0 < damage_to_take \<and> 0 < health h then 40 else 0)"

definition explode_enrage :: "int \<Rightarrow> hero \<Rightarrow> hero" where
  "explode_enrage damage_to_take h =
     (if passive_has ''explode'' h \<and> 0 < damage_to_take \<and> health h < 120 \<and> 0 < health h
      then h\<lparr>attack_power := attack_power h + 15\<rparr> else h)"

definition heal_step :: "int \<Rightarrow> hero \<Rightarrow> hero" where
  "heal_step damage_to_take h =
     (if passive_has ''heal:'' h \<and> 0 < health h \<and> 0 < damage_to_take
      then h\<lparr>health := health h + 20\<rparr> else h)"

definition finish_hit :: "team \<Rightarrow> nat \<Rightarrow> int \<Rightarrow> int \<Rightarrow> team \<times> int" where
  "finish_hit t i damage_to_take tcd =
     (let h1 = deflect_tracker damage_to_take (apply_damage damage_to_take (t ! i));
          t1 = t[i := h1];
          tcd1 = tcd + counter_bonus t1 h1 + explode_bonus damage_to_take h1;
          h2 = heal_step damage_to_take (explode_enrage damage_to_take h1)
      in (t1[i := check_death h2], tcd1))"

definition resolve_hit ::
  "(nat \<Rightarrow> real) \<Rightarrow> int \<Rightarrow> team \<times> nat \<times> int \<Rightarrow> nat \<Rightarrow> py_error + team \<times> nat \<times> int"
  where
  "resolve_hit rnd raw_damage st i =
     (case st of (t, k, tcd) \<Rightarrow>
        (case reduce_deflect_step rnd t k i raw_damage of
           Inl e \<Rightarrow> Inl e
         | Inr (t1, k1, d1) \<Rightarrow>
             (case shield_step t1 i d1 of
                Inl e \<Rightarrow> Inl e
              | Inr (t2, d2) \<Rightarrow>
                  (case finish_hit t2 i d2 tcd of (t3, tcd3) \<Rightarrow> Inr (t3, k1, tcd3)))))"

fun resolve_targets ::
  "(nat \<Rightarrow> real) \<Rightarrow> int \<Rightarrow> team \<times> nat \<times> int \<Rightarrow> nat list \<Rightarrow> py_error + team \<times> nat \<times> int"
  where
  "resolve_targets rnd raw_damage st [] = Inr st"
| "resolve_targets rnd raw_damage st (i # targets) =
     (case resolve_hit rnd raw_damage st i of
        Inl e \<Rightarrow> Inl e
      | Inr st' \<Rightarrow> resolve_targets rnd raw_damage st' targets)"

text \<open>The targets and the damage of the hit: all that are alive for an AOE skill, the
  first hero of lowest health for a skill that targets the lowest (with the boost to
  \<^verbatim>\<open>int(attacker_ap * 1.4)\<close> under 160 health), else the addressed hero if alive.\<close>

definition determine_targets ::
  "team \<Rightarrow> nat \<Rightarrow> int \<Rightarrow> skill_attributes \<Rightarrow> py_error + nat list \<times> int" where
  "determine_targets t target_pos ap parsed_skill =
     (let raw_damage = damage_amount parsed_skill in
      if is_aoe parsed_skill then Inr (alive_positions t, raw_damage)
      else if targets_lowest parsed_skill then
        (case alive_positions t of
           [] \<Rightarrow> Inr ([], raw_damage)
         | j # js \<Rightarrow>
             let lowest = lowest_hp t j js in
             if health (t ! lowest) < 160 then
               (case py_int_mul ap c_140 of
                  Inl e \<Rightarrow> Inl e
                | Inr new_damage \<Rightarrow>
                    Inr ([lowest], if raw_damage < new_damage then new_damage else raw_damage))
             else Inr ([lowest], raw_damage))
      else if status (t ! target_pos) = Alive then Inr ([target_pos], raw_damage)
      else Inr ([], raw_damage))"

definition first_breach :: "team \<Rightarrow> nat \<Rightarrow> team" where
  "first_breach t p = global_damage (t[p := (t ! p)\<lparr>revealed := True\<rparr>])"

definition make_feedback :: "team \<Rightarrow> nat \<Rightarrow> bool \<Rightarrow> string \<Rightarrow> int \<Rightarrow> feedback" where
  "make_feedback t p correct identity tcd =
     \<lparr> guess_correct = correct,
       actual_identity = (if correct then Some identity else None),
       counter_damage = tcd,
       target_health = health (t ! p),
       target_status = status (t ! p),
       all_dead_positions = map idx (filter (\<lambda>h. status h = Dead) t) \<rparr>"

text \<open>
  \<^verbatim>\<open>process_incoming_attack\<close>.  \<open>Inl\<close> is an exception that nothing catches; otherwise
  the result is the roster as the call leaves it and the returned value, \<open>None\<close> for
  Python's \<^verbatim>\<open>None\<close>.
\<close>

definition process_incoming_attack ::
  "skill_parser \<Rightarrow> (nat \<Rightarrow> real) \<Rightarrow> team \<Rightarrow> attack_info \<Rightarrow> py_error + team \<times> feedback option"
  where
  "process_incoming_attack llm rnd t attack =
     (if \<not> in_team t (target_position attack) then Inr (t, None)
      else
        let p = nat (target_position attack);
            identity = name (t ! p);
            correct = (lower (guessed_identity attack) = lower identity);
            t1 = (if correct \<and> \<not> revealed (t ! p) then first_breach t p else t)
        in case parse_skill_with_llm llm (skill attack) (attacker_ap attack) (health (t1 ! p)) of
             Inl e \<Rightarrow> Inl e
           | Inr None \<Rightarrow> Inr (t1, None)
           | Inr (Some parsed_skill) \<Rightarrow>
               (case determine_targets t1 p (attacker_ap attack) parsed_skill of
                  Inl e \<Rightarrow> Inl e
                | Inr (targets, raw_damage) \<Rightarrow>
                    (case resolve_targets rnd raw_damage (t1, 0, 0) targets of
                       Inl e \<Rightarrow> Inl e
                     | Inr (t2, k, tcd) \<Rightarrow>
                         Inr (t2, Some (make_feedback t2 p correct identity tcd)))))"

section \<open>Turns\<close>

datatype side = TeamA | TeamB

fun team_name :: "side \<Rightarrow> string" where
  "team_name TeamA = ''Team A''"
| "team_name TeamB = ''Team B''"

text \<open>
  What the LLM chains answer during an episode: \<open>manager_llm\<close> for the action selection of
  \<^verbatim>\<open>select_hero_for_turn\<close>, \<open>lead_llm\<close> for the target and the guess of
  \<^verbatim>\<open>get_turn_decision\<close> (\<open>None\<close> when the chain raises or the reply lacks a field),
  \<open>parser_llm\<close> for the skill parser and \<open>random_values\<close> for \<^verbatim>\<open>random.random()\<close>,
  each per round and acting side.  The known-enemies ledger of the team lead only feeds
  the prompt of \<open>lead_llm\<close>; it is not part of the state here.
\<close>

record oracles =
  manager_llm :: "nat \<Rightarrow> side \<Rightarrow> team \<Rightarrow> chain_reply"
  lead_llm :: "nat \<Rightarrow> side \<Rightarrow> (int \<times> string) option"
  parser_llm :: "nat \<Rightarrow> side \<Rightarrow> skill_parser"
  random_values :: "nat \<Rightarrow> side \<Rightarrow> nat \<Rightarrow> real"

datatype lead_decision = Surrender | Payload attack_info

text \<open>\<^verbatim>\<open>get_turn_decision\<close>; \<open>None\<close> is Python's \<^verbatim>\<open>None\<close>.\<close>

definition get_turn_decision :: "(int \<times> string) option \<Rightarrow> decision \<Rightarrow> lead_decision option"
  where
  "get_turn_decision llm_reply manager_response =
     (case manager_response of
        Defeat \<Rightarrow> Some Surrender
      | Error \<Rightarrow> None
      | ReturnedNone \<Rightarrow> None
      | InternalAction r current_ap \<Rightarrow> None
      | Active r current_ap \<Rightarrow>
          (case (hero_name r, selected_skill r) of
             (Some acting_hero, Some sk) \<Rightarrow>
               (case llm_reply of
                  None \<Rightarrow> None
                | Some (pos, guess) \<Rightarrow>
                    Some (Payload \<lparr> target_position = pos, guessed_identity = guess,
                                    skill = sk, attacker_ap = current_ap \<rparr>))
           | _ \<Rightarrow> None))"

datatype turn_result = TurnFailed | Continue | GameOver

text \<open>
  \<^verbatim>\<open>perform_turn\<close> for the acting roster \<open>act\<close> against the roster \<open>pas\<close>:
  \<open>TurnFailed\<close> is the return value \<^verbatim>\<open>None\<close>, and \<open>Inl\<close> an exception nobody catches.
\<close>

definition perform_turn ::
  "oracles \<Rightarrow> nat \<Rightarrow> side \<Rightarrow> team \<Rightarrow> team \<Rightarrow> py_error + turn_result \<times> team \<times> team" where
  "perform_turn orc n s act pas =
     (case select_hero_for_turn act (manager_llm orc n s act) of (manager_decision, act1) \<Rightarrow>
        (case manager_decision of
           ReturnedNone \<Rightarrow> Inr (TurnFailed, act1, pas)
         | Error \<Rightarrow> Inr (TurnFailed, act1, pas)
         | InternalAction r current_ap \<Rightarrow> Inr (Continue, act1, pas)
         | _ \<Rightarrow>
             (case get_turn_decision (lead_llm orc n s) manager_decision of
                None \<Rightarrow> Inr (TurnFailed, act1, pas)
              | Some Surrender \<Rightarrow> Inr (GameOver, act1, pas)
              | Some (Payload attack_payload) \<Rightarrow>
                  (case process_incoming_attack (parser_llm orc n s) (random_values orc n s)
                          pas attack_payload of
                     Inl e \<Rightarrow> Inl e
                   | Inr (pas1, None) \<Rightarrow> Inr (TurnFailed, act1, pas1)
                   | Inr (pas1, Some fb) \<Rightarrow>
                       if 0 < counter_damage fb then
                         (case manager_decision of
                            Active r current_ap \<Rightarrow>
                              (case selected_hero_id r of
                                 Some attacker_id \<Rightarrow>
                                   Inr (Continue,
                                        update_hero_stats act1 attacker_id (counter_damage fb),
                                        pas1)
                               | None \<Rightarrow> Inr (TurnFailed, act1, pas1))
                          | _ \<Rightarrow> Inr (TurnFailed, act1, pas1))
                       else Inr (Continue, act1, pas1)))))"

section \<open>Episodes and metrics\<close>

definition get_total_team_health :: "team \<Rightarrow> int" where
  "get_total_team_health t = sum_list (map health t)"

definition get_alive_count :: "team \<Rightarrow> nat" where
  "get_alive_count t = length (filter (\<lambda>h. status h = Alive) t)"

text \<open>
  The difficulty is the value of the float given on the command line.
  \<^verbatim>\<open>math.sqrt\<close> raises \<^verbatim>\<open>ValueError\<close> below zero and is correctly rounded otherwise, the
  products \<^verbatim>\<open>400 * scaling_factor\<close> are float products (the square root of a float is
  below \<open>2 ^ 512\<close>, so they do not overflow), and \<^verbatim>\<open>int\<close> truncates towards zero.
\<close>

definition py_int :: "real \<Rightarrow> int" where
  "py_int x = (if 0 \<le> x then \<lfloor>x\<rfloor> else \<lceil>x\<rceil>)"

definition apply_difficulty_scaling ::
  "(string \<times> hero_info) list \<Rightarrow> real \<Rightarrow> py_error + (string \<times> hero_info) list" where
  "apply_difficulty_scaling team_data difficulty_ratio =
     (if difficulty_ratio = 1 then Inr team_data
      else if difficulty_ratio < 0 then Inl ValueError
      else
        let scaling_factor = float64 (sqrt difficulty_ratio) in
        Inr (map (\<lambda>(hero_name, stats).
                    (hero_name,
                     stats\<lparr>initial_health := Some (py_int (float64 (400 * scaling_factor))),
                           initial_attack_power :=
                             Some (py_int (float64 (200 * scaling_factor)))\<rparr>))
                 team_data))"

record episode_stats =
  winner :: string
  damage_dealt_by_a :: int
  damage_dealt_by_b :: int

text \<open>
  \<^verbatim>\<open>start_hp_b\<close> of \<^verbatim>\<open>run_game_loop\<close>; it is computed after the battle, so only for a
  difficulty that \<^verbatim>\<open>math.sqrt\<close> accepted before it.
\<close>

definition start_hp_b :: "real \<Rightarrow> int" where
  "start_hp_b difficulty =
     (if difficulty \<noteq> 1 then py_int (float64 (1600 * float64 (sqrt difficulty))) else 1600)"

definition post_game_stats :: "real \<Rightarrow> team \<Rightarrow> team \<Rightarrow> episode_stats" where
  "post_game_stats difficulty manager_a manager_b =
     (let alive_a = get_alive_count manager_a;
          alive_b = get_alive_count manager_b
      in \<lparr> winner = (if alive_b < alive_a then ''Team A''
                      else if alive_a < alive_b then ''Team B'' else ''Draw''),
           damage_dealt_by_a = start_hp_b difficulty - get_total_team_health manager_b,
           damage_dealt_by_b = 1600 - get_total_team_health manager_a \<rparr>)"

text \<open>
  The battle loop of \<^verbatim>\<open>run_game_loop\<close>.  The loop has no bound of its own, so the model
  counts rounds down: the outer \<open>None\<close> means that the rounds given did not suffice.
  \<open>Inl\<close> is an uncaught exception, \<open>Inr None\<close> the return value \<^verbatim>\<open>None\<close> of a failed
  turn, \<open>Inr (Some (a, b))\<close> the rosters when a turn ended the game.
\<close>

fun battle ::
  "nat \<Rightarrow> oracles \<Rightarrow> nat \<Rightarrow> team \<Rightarrow> team \<Rightarrow> (py_error + (team \<times> team) option) option" where
  "battle 0 orc turn_counter a b = None"
| "battle (Suc fuel) orc turn_counter a b =
     (case perform_turn orc turn_counter TeamA a b of
        Inl e \<Rightarrow> Some (Inl e)
      | Inr (TurnFailed, a1, b1) \<Rightarrow> Some (Inr None)
      | Inr (GameOver, a1, b1) \<Rightarrow> Some (Inr (Some (a1, b1)))
      | Inr (Continue, a1, b1) \<Rightarrow>
          (case perform_turn orc turn_counter TeamB b1 a1 of
             Inl e \<Rightarrow> Some (Inl e)
           | Inr (TurnFailed, b2, a2) \<Rightarrow> Some (Inr None)
           | Inr (GameOver, b2, a2) \<Rightarrow> Some (Inr (Some (a2, b2)))
           | Inr (Continue, b2, a2) \<Rightarrow> battle fuel orc (turn_counter + 1) a2 b2))"

text \<open>
  \<^verbatim>\<open>run_game_loop\<close>, from the two generated teams (\<open>None\<close> when the generation agent
  failed) to the statistics of the episode.
\<close>

definition run_game_loop ::
  "nat \<Rightarrow> oracles \<Rightarrow> (string \<times> hero_info) list option \<Rightarrow> (string \<times> hero_info) list option
     \<Rightarrow> real \<Rightarrow> (py_error + episode_stats option) option" where
  "run_game_loop fuel orc team_a_data team_b_data difficulty =
     (case team_a_data of
        None \<Rightarrow> Some (Inr None)
      | Some data_a \<Rightarrow>
          if data_a = [] then Some (Inr None)
          else (case team_b_data of
             None \<Rightarrow> Some (Inr None)
           | Some data_b \<Rightarrow>
               if data_b = [] then Some (Inr None)
               else (case apply_difficulty_scaling data_b difficulty of
                  Inl e \<Rightarrow> Some (Inl e)
                | Inr scaled_b \<Rightarrow>
                    (case battle fuel orc 1 (initialize_team data_a) (initialize_team scaled_b) of
                       None \<Rightarrow> None
                     | Some (Inl e) \<Rightarrow> Some (Inl e)
                     | Some (Inr None) \<Rightarrow> Some (Inr None)
                     | Some (Inr (Some (a, b))) \<Rightarrow>
                         Some (Inr (Some (post_game_stats difficulty a b)))))))"

text \<open>
  \<^verbatim>\<open>calculate_metrics\<close> for the labels \<^verbatim>\<open>"Team A"\<close> and \<^verbatim>\<open>"Team B"\<close>, the two it is
  called with.  \<^verbatim>\<open>wins / total_games\<close> and \<^verbatim>\<open>total_damage / total_games\<close> divide two
  integers, \<^verbatim>\<open>avg_damage / 1600.0\<close>, the two products and the sum are float operations.
  The result is \<^verbatim>\<open>(win_rate, damage_rate, reward, wins)\<close>.
\<close>

definition damage_of :: "side \<Rightarrow> episode_stats \<Rightarrow> int" where
  "damage_of s r = (case s of TeamA \<Rightarrow> damage_dealt_by_a r | TeamB \<Rightarrow> damage_dealt_by_b r)"

definition calculate_metrics ::
  "episode_stats list \<Rightarrow> side \<Rightarrow> py_error + real \<times> real \<times> real \<times> nat" where
  "calculate_metrics results team_label =
     (let total_games = length results;
          wins = length (filter (\<lambda>r. winner r = team_name team_label) results)
      in case py_true_div (int wins) (int total_games) of
           Inl e \<Rightarrow> Inl e
         | Inr win_rate \<Rightarrow>
             let total_damage = sum_list (map (damage_of team_label) results)
             in case py_true_div total_damage (int total_games) of
                  Inl e \<Rightarrow> Inl e
                | Inr avg_damage \<Rightarrow>
                    let damage_rate = float64 (avg_damage / 1600);
                        reward = float64 (float64 (float64 (7 / 10) * win_rate)
                                          + float64 (float64 (3 / 10) * damage_rate))
                    in Inr (win_rate, damage_rate, reward, wins))"

section \<open>The hero pool\<close>

text \<open>
  The passives of the hero pool in the prompt of \<^verbatim>\<open>team_generation_agent.py\<close>, which the
  generation agent is told to copy, and heroes built from them.
\<close>

definition counter_text :: string where
  "counter_text =
     ''Counter: Deal 30 damage to the attacker when a teammate's health is below 30%.''"

definition deflect_text :: string where
  "deflect_text =
     ''Deflect: Distribute '70%' damage to teammates and take '30%' damage when attacked. Gains 40 attack points after taking 200 damage accumulated.''"

definition reduce_text :: string where
  "reduce_text = ''Reduce: There is a '30%' chance to avoid any incoming damage each time.''"

definition heal_text :: string where
  "heal_text =
     ''Heal: Regain 20 health points if the health is still greater than 0 when attacked.''"

definition explode_text :: string where
  "explode_text =
     ''Explode: Deal 40 damage to the source when attacked, but not died. when the health is below '30%', increase its attack points by 15.''"

definition infight_text :: string where
  "infight_text =
     ''Infight: Deal 75 damage on one living teammate and increase your attack points by 140. Notice! You can't attack yourself or a dead teammate!''"

definition pool_hero :: "string \<Rightarrow> string \<Rightarrow> string \<times> hero_info" where
  "pool_hero nm p =
     (nm, \<lparr> info_passive = p, info_active = ''Basic Attack'',
            initial_health = None, initial_attack_power = None \<rparr>)"

definition plain_roster :: team where
  "plain_roster =
     initialize_team
       [pool_hero ''Scout'' ''No passive ability.'', pool_hero ''Nord'' reduce_text,
        pool_hero ''Imperial'' heal_text, pool_hero ''Bosmer'' explode_text]"

definition basic_attack :: "int \<Rightarrow> string \<Rightarrow> attack_info" where
  "basic_attack pos guess =
     \<lparr> target_position = pos, guessed_identity = guess, skill = ''Basic Attack'',
       attacker_ap = 200 \<rparr>"

definition parser_returning :: "int \<Rightarrow> bool \<Rightarrow> bool \<Rightarrow> skill_parser" where
  "parser_returning d aoe lowest =
     (\<lambda>skill_description ap hp.
        Some \<lparr> damage_amount = d, is_aoe = aoe, targets_lowest = lowest \<rparr>)"

definition parser_failing :: skill_parser where
  "parser_failing = (\<lambda>skill_description ap hp. None)"

definition dead_mate_roster :: team where
  "dead_mate_roster = plain_roster[1 := (plain_roster ! 1)\<lparr>health := 0, status := Dead\<rparr>]"

definition infight_reply :: "int \<Rightarrow> int option \<Rightarrow> response" where
  "infight_reply actor target =
     \<lparr> selected_hero_id = Some actor, hero_name = Some ''Scout'',
       selected_skill = Some infight_text, target_type = Some ''teammate'',
       teammate_target_id = target \<rparr>"

definition roster_a_data :: "(string \<times> hero_info) list" where
  "roster_a_data =
     [pool_hero ''Redguard'' deflect_text, pool_hero ''Argonian'' counter_text,
      pool_hero ''Khajit'' counter_text, pool_hero ''Nord'' reduce_text]"

definition roster_b_data :: "(string \<times> hero_info) list" where
  "roster_b_data =
     [pool_hero ''Redguard'' deflect_text, pool_hero ''Nord'' reduce_text,
      pool_hero ''Imperial'' heal_text, pool_hero ''Onsimer'' heal_text]"

definition hero_at :: "nat \<Rightarrow> string \<Rightarrow> string \<Rightarrow> int \<Rightarrow> status \<Rightarrow> hero" where
  "hero_at i nm p hp st =
     \<lparr> idx = i, name = nm, health = hp, attack_power = 200, status = st, revealed = False,
       subtle_shield = False, accumulated_damage = 0, buff_threshold = 200,
       passive_skill = p, active_skill = ''Basic Attack'' \<rparr>"

definition attack_reply :: "int \<Rightarrow> string \<Rightarrow> response" where
  "attack_reply hero_id nm =
     \<lparr> selected_hero_id = Some hero_id, hero_name = Some nm,
       selected_skill = Some ''Basic Attack'', target_type = Some ''enemy'',
       teammate_target_id = None \<rparr>"

text \<open>
  Scripted chains for an episode: team A always sends its hero 1 and team B its hero 0
  with a basic attack; the lead of A aims at \<open>a_pos\<close>, the lead of B at position 0, both
  guess "Breton" (a hero in neither roster); the parser reads A's skill as \<open>a_dmg\<close> damage
  (AOE if \<open>a_aoe\<close>) and B's as an AOE of \<open>b_dmg\<close>; \<^verbatim>\<open>random.random()\<close> returns 0.5.
\<close>

definition episode_oracles :: "int \<Rightarrow> int \<Rightarrow> bool \<Rightarrow> int \<Rightarrow> oracles" where
  "episode_oracles a_pos a_dmg a_aoe b_dmg =
     \<lparr> manager_llm = (\<lambda>n s t. case s of
           TeamA \<Rightarrow> ChainReturns (attack_reply 1 ''Argonian'')
         | TeamB \<Rightarrow> ChainReturns (attack_reply 0 ''Redguard'')),
       lead_llm = (\<lambda>n s. case s of
           TeamA \<Rightarrow> Some (a_pos, ''Breton'')
         | TeamB \<Rightarrow> Some (0, ''Breton'')),
       parser_llm = (\<lambda>n s. case s of
           TeamA \<Rightarrow> parser_returning a_dmg a_aoe False
         | TeamB \<Rightarrow> parser_returning b_dmg True False),
       random_values = (\<lambda>n s k. 1 / 2) \<rparr>"

definition healed_b :: team where
  "healed_b =
     [hero_at 0 ''Redguard'' deflect_text 400 Alive, hero_at 1 ''Nord'' reduce_text 400 Alive,
      hero_at 2 ''Imperial'' heal_text 410 Alive, hero_at 3 ''Onsimer'' heal_text 400 Alive]"

definition wiped_a :: team where
  "wiped_a =
     [(hero_at 0 ''Redguard'' deflect_text 0 Dead)
        \<lparr>attack_power := 240, accumulated_damage := 600, buff_threshold := 400\<rparr>,
      hero_at 1 ''Argonian'' counter_text 0 Dead,
      hero_at 2 ''Khajit'' counter_text 0 Dead, hero_at 3 ''Nord'' reduce_text 0 Dead]"




text \<open>The health invariant of a hero and of a roster.\<close>

definition health_ok :: "hero \<Rightarrow> bool" where
  "health_ok h = (0 \<le> health h \<and> (health h = 0 \<longleftrightarrow> status h = Dead))"

definition team_ok :: "team \<Rightarrow> bool" where
  "team_ok t = list_all health_ok t"

definition trio_roster :: team where
  "trio_roster = (initialize_team roster_a_data)[3 := hero_at 3 ''Nord'' reduce_text 0 Dead]"

section \<open>Basic facts\<close>

lemma lower_counter:
  "lower counter_text =
     ''counter: deal 30 damage to the attacker when a teammate's health is below 30%.''"
  by (simp add: counter_text_def lower_def lower_char_def)

lemma lower_deflect:
  "lower deflect_text =
     ''deflect: distribute '70%' damage to teammates and take '30%' damage when attacked. gains 40 attack points after taking 200 damage accumulated.''"
  by (simp add: deflect_text_def lower_def lower_char_def)

lemma lower_reduce:
  "lower reduce_text = ''reduce: there is a '30%' chance to avoid any incoming damage each time.''"
  by (simp add: reduce_text_def lower_def lower_char_def)

lemma lower_heal:
  "lower heal_text =
     ''heal: regain 20 health points if the health is still greater than 0 when attacked.''"
  by (simp add: heal_text_def lower_def lower_char_def)

lemma lower_explode:
  "lower explode_text =
     ''explode: deal 40 damage to the source when attacked, but not died. when the health is below '30%', increase its attack points by 15.''"
  by (simp add: explode_text_def lower_def lower_char_def)

lemma lower_no_passive: "lower ''No passive ability.'' = ''no passive ability.''"
  by (simp add: lower_def lower_char_def)

lemma counter_text_kinds:
  "contains_str ''counter'' (lower counter_text)"
  "\<not> contains_str ''reduce'' (lower counter_text)"
  "\<not> contains_str ''deflect'' (lower counter_text)"
  "\<not> contains_str ''explode'' (lower counter_text)"
  "\<not> contains_str ''heal:'' (lower counter_text)"
  by (simp_all add: lower_counter)

lemma deflect_text_kinds:
  "contains_str ''deflect'' (lower deflect_text)"
  "\<not> contains_str ''reduce'' (lower deflect_text)"
  "\<not> contains_str ''counter'' (lower deflect_text)"
  "\<not> contains_str ''explode'' (lower deflect_text)"
  "\<not> contains_str ''heal:'' (lower deflect_text)"
  by (simp_all add: lower_deflect)

lemma reduce_text_kinds:
  "contains_str ''reduce'' (lower reduce_text)"
  "\<not> contains_str ''deflect'' (lower reduce_text)"
  "\<not> contains_str ''counter'' (lower reduce_text)"
  "\<not> contains_str ''explode'' (lower reduce_text)"
  "\<not> contains_str ''heal:'' (lower reduce_text)"
  by (simp_all add: lower_reduce)

lemma heal_text_kinds:
  "contains_str ''heal:'' (lower heal_text)"
  "\<not> contains_str ''reduce'' (lower heal_text)"
  "\<not> contains_str ''deflect'' (lower heal_text)"
  "\<not> contains_str ''counter'' (lower heal_text)"
  "\<not> contains_str ''explode'' (lower heal_text)"
  by (simp_all add: lower_heal)

lemma explode_text_kinds:
  "contains_str ''explode'' (lower explode_text)"
  "\<not> contains_str ''reduce'' (lower explode_text)"
  "\<not> contains_str ''deflect'' (lower explode_text)"
  "\<not> contains_str ''counter'' (lower explode_text)"
  "\<not> contains_str ''heal:'' (lower explode_text)"
  by (simp_all add: lower_explode)

lemma no_passive_kinds:
  "\<not> contains_str ''reduce'' (lower ''No passive ability.'')"
  "\<not> contains_str ''deflect'' (lower ''No passive ability.'')"
  "\<not> contains_str ''counter'' (lower ''No passive ability.'')"
  "\<not> contains_str ''explode'' (lower ''No passive ability.'')"
  "\<not> contains_str ''heal:'' (lower ''No passive ability.'')"
  by (simp_all add: lower_no_passive)

lemmas text_kinds =
  counter_text_kinds deflect_text_kinds reduce_text_kinds heal_text_kinds explode_text_kinds
  no_passive_kinds

lemma passive_has_update [simp]:
  "passive_has kw (h\<lparr>health := x\<rparr>) = passive_has kw h"
  "passive_has kw (h\<lparr>status := s\<rparr>) = passive_has kw h"
  "passive_has kw (h\<lparr>revealed := b\<rparr>) = passive_has kw h"
  "passive_has kw (h\<lparr>subtle_shield := b\<rparr>) = passive_has kw h"
  "passive_has kw (h\<lparr>attack_power := x\<rparr>) = passive_has kw h"
  "passive_has kw (h\<lparr>accumulated_damage := x\<rparr>) = passive_has kw h"
  "passive_has kw (h\<lparr>buff_threshold := x\<rparr>) = passive_has kw h"
  by (simp_all add: passive_has_def)

lemma passive_has_check_death [simp]: "passive_has kw (check_death h) = passive_has kw h"
  by (simp add: check_death_def)

lemma passive_has_lose_health [simp]: "passive_has kw (lose_health d h) = passive_has kw h"
  by (simp add: lose_health_def)

lemma length_global_damage [simp]: "length (global_damage t) = length t"
  by (simp add: global_damage_def)

lemma length_first_breach [simp]: "length (first_breach t p) = length t"
  by (simp add: first_breach_def)

lemma first_breach_nth:
  "j < length t \<Longrightarrow>
   first_breach t p ! j =
     (t ! j)\<lparr> revealed := (j = p \<or> revealed (t ! j)),
              health := (if status (t ! j) = Alive then max 0 (health (t ! j) - 50)
                         else health (t ! j)),
              status := (if status (t ! j) = Alive \<and> health (t ! j) \<le> 50 then Dead
                         else status (t ! j)) \<rparr>"
  by (cases "j = p")
     (auto simp: first_breach_def global_damage_def lose_health_def check_death_def
           nth_list_update max_def)

lemma plain_roster_eq:
  "plain_roster =
     [\<lparr> idx = 0, name = ''Scout'', health = 400, attack_power = 200, status = Alive,
        revealed = False, subtle_shield = False, accumulated_damage = 0,
        buff_threshold = 200, passive_skill = ''No passive ability.'',
        active_skill = ''Basic Attack'' \<rparr>,
      \<lparr> idx = 1, name = ''Nord'', health = 400, attack_power = 200, status = Alive,
        revealed = False, subtle_shield = False, accumulated_damage = 0,
        buff_threshold = 200, passive_skill = reduce_text, active_skill = ''Basic Attack'' \<rparr>,
      \<lparr> idx = 2, name = ''Imperial'', health = 400, attack_power = 200, status = Alive,
        revealed = False, subtle_shield = False, accumulated_damage = 0,
        buff_threshold = 200, passive_skill = heal_text, active_skill = ''Basic Attack'' \<rparr>,
      \<lparr> idx = 3, name = ''Bosmer'', health = 400, attack_power = 200, status = Alive,
        revealed = False, subtle_shield = False, accumulated_damage = 0,
        buff_threshold = 200, passive_skill = explode_text, active_skill = ''Basic Attack'' \<rparr>]"
  by (simp add: plain_roster_def initialize_team_def enumerate_eq_zip new_hero_def pool_hero_def
        upt_conv_Cons)

lemma py_int_mul_200_140: "py_int_mul 200 c_140 = Inr 280"
  by (simp add: py_int_mul_def c_140_def to_binary64_def bit_length.simps round_half_even_def)

subsection \<open>Binary64 rounding\<close>

lemma bit_length_bounds: "0 < n \<Longrightarrow> 2 ^ (bit_length n - 1) \<le> n \<and> n < 2 ^ bit_length n"
proof (induction n rule: bit_length.induct)
  case (1 n)
  show ?case
  proof (cases "n div 2 = 0")
    case True
    then have "n = 1" using "1.prems" by (cases n) auto
    then show ?thesis by (simp add: bit_length.simps)
  next
    case False
    then have ih: "2 ^ (bit_length (n div 2) - 1) \<le> n div 2" "n div 2 < 2 ^ bit_length (n div 2)"
      using "1.IH" "1.prems" by auto
    have pos: "0 < bit_length (n div 2)" using False by (simp add: bit_length.simps)
    have bl: "bit_length n = Suc (bit_length (n div 2))"
      using "1.prems" by (subst bit_length.simps) simp
    have "2 ^ bit_length (n div 2) = (2::nat) * 2 ^ (bit_length (n div 2) - 1)"
      using pos by (cases "bit_length (n div 2)") simp_all
    then have "(2::nat) ^ (bit_length n - 1) \<le> 2 * (n div 2)" using ih(1) bl by simp
    moreover have "n < 2 * 2 ^ bit_length (n div 2)" using ih(2) by linarith
    ultimately show ?thesis using bl by simp
  qed
qed

lemma bit_length_pos: "0 < n \<Longrightarrow> 0 < bit_length n"
  by (subst bit_length.simps) simp

lemma ilog2_bounds:
  assumes "0 < x"
  shows "2 powi ilog2 x \<le> x" and "x < 2 powi (ilog2 x + 1)"
proof -
  have "2 powi ilog2 x \<le> x \<and> x < 2 powi (ilog2 x + 1)"
  proof (cases "1 \<le> x")
    case True
    define n where "n = nat \<lfloor>x\<rfloor>"
    have n: "0 < n" "real n \<le> x" "x < real n + 1"
      using True by (simp_all add: n_def)
    define b where "b = bit_length n"
    have b: "0 < b" "2 ^ (b - 1) \<le> n" "n < 2 ^ b"
      using bit_length_bounds [OF n(1)] bit_length_pos [OF n(1)] by (simp_all add: b_def)
    have "ilog2 x = int (b - 1)" "ilog2 x + 1 = int b"
      using True b(1) by (simp_all add: ilog2_def n_def b_def)
    then have e: "(2::real) powi ilog2 x = 2 ^ (b - 1)" "(2::real) powi (ilog2 x + 1) = 2 ^ b"
      by (simp_all only: power_int_of_nat)
    have "real (2 ^ (b - 1)) \<le> real n" using b(2) by (rule of_nat_mono)
    then have "(2::real) ^ (b - 1) \<le> real n" by (simp only: of_nat_power of_nat_numeral)
    then have lo: "(2::real) ^ (b - 1) \<le> x" using n(2) by linarith
    have "n + 1 \<le> 2 ^ b" using b(3) by simp
    then have "real (n + 1) \<le> real (2 ^ b)" by (rule of_nat_mono)
    then have "real n + 1 \<le> (2::real) ^ b"
      by (simp only: of_nat_power of_nat_numeral of_nat_add of_nat_1)
    then have hi: "x < (2::real) ^ b" using n(3) by linarith
    show ?thesis unfolding e using lo hi by simp
  next
    case False
    define y where "y = 1 / x"
    have y: "1 < y" using False assms by (simp add: y_def)
    define n where "n = nat (\<lceil>y\<rceil> - 1)"
    have c: "2 \<le> \<lceil>y\<rceil>" using y by linarith
    have n: "0 < n" "real n < y" "y \<le> real n + 1"
      using c by (simp_all add: n_def) linarith+
    define b where "b = bit_length n"
    have b: "0 < b" "2 ^ (b - 1) \<le> n" "n < 2 ^ b"
      using bit_length_bounds [OF n(1)] bit_length_pos [OF n(1)] by (simp_all add: b_def)
    have "ilog2 x = - int b" "ilog2 x + 1 = - int (b - 1)"
      using False b(1) by (simp_all add: ilog2_def n_def b_def y_def)
    then have e: "(2::real) powi ilog2 x = 1 / 2 ^ b"
      "(2::real) powi (ilog2 x + 1) = 1 / 2 ^ (b - 1)"
      by (simp_all only: power_int_minus_divide power_int_of_nat)
    have "real (2 ^ (b - 1)) \<le> real n" using b(2) by (rule of_nat_mono)
    then have "(2::real) ^ (b - 1) \<le> real n" by (simp only: of_nat_power of_nat_numeral)
    then have lo: "(2::real) ^ (b - 1) < y" using n(2) by linarith
    have "n + 1 \<le> 2 ^ b" using b(3) by simp
    then have "real (n + 1) \<le> real (2 ^ b)" by (rule of_nat_mono)
    then have "real n + 1 \<le> (2::real) ^ b"
      by (simp only: of_nat_power of_nat_numeral of_nat_add of_nat_1)
    then have hi: "y \<le> (2::real) ^ b" using n(3) by linarith
    have "1 / (2::real) ^ b \<le> x"
      using hi assms by (simp add: y_def field_simps)
    moreover have "x < 1 / (2::real) ^ (b - 1)"
      using lo assms by (simp add: y_def field_simps)
    ultimately show ?thesis unfolding e by simp
  qed
  then show "2 powi ilog2 x \<le> x" and "x < 2 powi (ilog2 x + 1)" by simp_all
qed

lemma round_even_ge:
  assumes "of_int n \<le> y"
  shows "n \<le> round_even y"
proof -
  have "n \<le> \<lfloor>y\<rfloor>" using assms by (simp add: le_floor_iff)
  then show ?thesis by (simp add: round_even_def Let_def)
qed

lemma round_even_le:
  assumes "y \<le> of_int n"
  shows "round_even y \<le> n"
proof (cases "y = of_int n")
  case True
  then show ?thesis by (simp add: round_even_def)
next
  case False
  then have "y < of_int n" using assms by simp
  then have "\<lfloor>y\<rfloor> < n" by (simp add: floor_less_iff)
  then show ?thesis by (simp add: round_even_def Let_def)
qed

lemma round_even_eq:
  assumes "of_int n - 1 / 2 < y" and "y < of_int n + 1 / 2"
  shows "round_even y = n"
proof (cases "of_int n \<le> y")
  case True
  then have "\<lfloor>y\<rfloor> = n" using assms(2) by (simp add: floor_eq_iff)
  then show ?thesis using assms(2) by (simp add: round_even_def Let_def)
next
  case False
  then have "\<lfloor>y\<rfloor> = n - 1" using assms(1) by (simp add: floor_eq_iff)
  then show ?thesis using assms(1) by (simp add: round_even_def Let_def)
qed


lemma float64_zero: "float64 0 = 0"
  by (simp add: float64_def)

lemma float64_minus: "float64 (- x) = - float64 x"
  by (simp add: float64_def Let_def)

lemma float64_pos_eq:
  "0 < x \<Longrightarrow>
     float64 x = of_int (round_even (x / 2 powi max (ilog2 x - 52) (- 1074)))
                   * 2 powi max (ilog2 x - 52) (- 1074)"
  by (simp add: float64_def Let_def)

lemma float64_nonneg:
  assumes "0 \<le> x"
  shows "0 \<le> float64 x"
proof (cases "x = 0")
  case True
  then show ?thesis by (simp add: float64_zero)
next
  case False
  then have x: "0 < x" using assms by simp
  define q where "q = max (ilog2 x - 52) (- 1074)"
  have "0 \<le> x / 2 powi q" using x by simp
  then have "0 \<le> round_even (x / 2 powi q)" using round_even_ge [of 0] by simp
  then show ?thesis unfolding float64_pos_eq [OF x] q_def [symmetric] by simp
qed

lemma float64_abs: "\<bar>float64 x\<bar> = float64 \<bar>x\<bar>"
proof (cases "0 \<le> x")
  case True
  then show ?thesis using float64_nonneg [of x] by simp
next
  case False
  then have "0 \<le> float64 (- x)" by (intro float64_nonneg) simp
  then show ?thesis using False by (simp add: float64_minus)
qed

lemma pow2_diff_int:
  assumes "q \<le> k"
  shows "(2::real) powi k / 2 powi q = of_int (2 ^ nat (k - q))"
proof -
  have "(2::real) powi k / 2 powi q = 2 powi (k - q)" by (simp add: power_int_diff)
  also have "k - q = int (nat (k - q))" using assms by simp
  also have "(2::real) powi int (nat (k - q)) = 2 ^ nat (k - q)" by (rule power_int_of_nat)
  finally show ?thesis by simp
qed

lemma float64_le_pow2:
  assumes "0 \<le> x" and "x \<le> 2 powi k" and "- 1074 \<le> k"
  shows "float64 x \<le> 2 powi k"
proof (cases "x = 0")
  case True
  then show ?thesis by (simp add: float64_zero)
next
  case False
  then have x: "0 < x" using assms(1) by simp
  define q where "q = max (ilog2 x - 52) (- 1074)"
  have "ilog2 x \<le> k"
  proof (rule ccontr)
    assume "\<not> ilog2 x \<le> k"
    then have "(2::real) powi k < 2 powi ilog2 x" by (intro power_int_strict_increasing) simp_all
    then show False using ilog2_bounds(1) [OF x] assms(2) by linarith
  qed
  then have qk: "q \<le> k" using assms(3) by (simp add: q_def)
  have p: "0 < (2::real) powi q" by simp
  have "x / 2 powi q \<le> 2 powi k / 2 powi q" using assms(2) p by (simp add: divide_right_mono)
  then have "x / 2 powi q \<le> of_int (2 ^ nat (k - q))" by (simp only: pow2_diff_int [OF qk])
  then have "round_even (x / 2 powi q) \<le> 2 ^ nat (k - q)" by (rule round_even_le)
  then have "real_of_int (round_even (x / 2 powi q)) \<le> of_int (2 ^ nat (k - q))"
    by (simp only: of_int_le_iff)
  then have "real_of_int (round_even (x / 2 powi q)) * 2 powi q
               \<le> real_of_int (2 ^ nat (k - q)) * 2 powi q"
    using p by (simp only: mult_le_cancel_right_pos)
  also have "real_of_int (2 ^ nat (k - q)) * 2 powi q = 2 powi k"
    unfolding pow2_diff_int [OF qk, symmetric] by simp
  finally show ?thesis unfolding float64_pos_eq [OF x] q_def [symmetric] .
qed

lemma float64_ge_pow2:
  assumes "2 powi k \<le> x" and "- 1074 \<le> k"
  shows "2 powi k \<le> float64 x"
proof -
  have p0: "0 < (2::real) powi k" by simp
  then have x: "0 < x" using assms(1) by linarith
  define e where "e = ilog2 x"
  define q where "q = max (e - 52) (- 1074)"
  have "k \<le> e"
  proof (rule ccontr)
    assume "\<not> k \<le> e"
    then have "(2::real) powi (e + 1) \<le> 2 powi k" by (intro power_int_increasing) simp_all
    then show False using ilog2_bounds(2) [OF x] assms(1) unfolding e_def by linarith
  qed
  then have qe: "q \<le> e" using assms(2) by (simp add: q_def)
  have p: "0 < (2::real) powi q" by simp
  have "2 powi e / 2 powi q \<le> x / 2 powi q"
    using ilog2_bounds(1) [OF x] p unfolding e_def by (simp add: divide_right_mono)
  then have "of_int (2 ^ nat (e - q)) \<le> x / 2 powi q" by (simp only: pow2_diff_int [OF qe])
  then have "2 ^ nat (e - q) \<le> round_even (x / 2 powi q)" by (rule round_even_ge)
  then have "real_of_int (2 ^ nat (e - q)) \<le> of_int (round_even (x / 2 powi q))"
    by (simp only: of_int_le_iff)
  then have "real_of_int (2 ^ nat (e - q)) * 2 powi q
               \<le> real_of_int (round_even (x / 2 powi q)) * 2 powi q"
    using p by (simp only: mult_le_cancel_right_pos)
  moreover have "real_of_int (2 ^ nat (e - q)) * 2 powi q = (2::real) powi e"
    unfolding pow2_diff_int [OF qe, symmetric] by simp
  moreover have "(2::real) powi k \<le> 2 powi e" using \<open>k \<le> e\<close> by (intro power_int_increasing) simp_all
  ultimately show ?thesis unfolding float64_pos_eq [OF x] q_def [symmetric] e_def [symmetric]
    by linarith
qed

lemmas float64_eval = float64_def ilog2_def round_even_def bit_length.simps Let_def

lemma float64_consts:
  "float64 (7 / 10) = 6305039478318694 / 2 ^ 53"
  "float64 (3 / 10) = 5404319552844595 / 2 ^ 54"
  by (simp_all add: float64_eval)

lemma float64_samples:
  "float64 (1 / 2) = 1 / 2"
  "float64 1600 = 1600"
  "float64 1 = 1"
  "float64 (- 1 / 160) = - 3602879701896397 / 576460752303423488"
  by (simp_all add: float64_eval)

lemma sqrt_2_enclosure:
  "12738103345051545 / 2 ^ 53 < sqrt 2" "sqrt 2 < 12738103345051547 / 2 ^ 53"
proof -
  show "12738103345051545 / 2 ^ 53 < sqrt 2"
    by (rule real_less_rsqrt) (simp add: power2_eq_square)
  show "sqrt 2 < 12738103345051547 / 2 ^ 53"
    by (rule real_less_lsqrt) (simp_all add: power2_eq_square)
qed

lemma float64_sqrt_2: "float64 (sqrt 2) = 6369051672525773 / 4503599627370496"
proof -
  have b: "1 \<le> sqrt 2" "sqrt 2 < 2" using sqrt_2_enclosure by simp_all
  then have "\<lfloor>sqrt 2\<rfloor> = 1" by (simp add: floor_eq_iff)
  then have e: "ilog2 (sqrt 2) = 0" using b(1) by (simp add: ilog2_def bit_length.simps)
  have "round_even (sqrt 2 * 2 ^ 52) = 6369051672525773"
    by (rule round_even_eq) (use sqrt_2_enclosure in simp_all)
  then have r: "round_even (sqrt 2 * 4503599627370496) = 6369051672525773" by simp
  have pos: "0 < sqrt 2" using b(1) by linarith
  show ?thesis
    unfolding float64_pos_eq [OF pos] e by (simp add: power_int_minus_divide r)
qed

lemma scaled_values:
  "float64 (400 * (6369051672525773 / 4503599627370496)) = 621977702395095 / 1099511627776"
  "float64 (200 * (6369051672525773 / 4503599627370496)) = 621977702395095 / 2199023255552"
  "float64 (1600 * (6369051672525773 / 4503599627370496)) = 621977702395095 / 274877906944"
  by (simp_all add: float64_eval)

text \<open>
  The integer rounding of \<open>py_int_mul\<close> and \<open>float64\<close> describe the same products: the
  float constants are the floats nearest to 0.3, 0.7 and 1.4, and the products used
  below agree.
\<close>

lemma float_consts_agree:
  "float64 (3 / 10) = real (fst c_030) / 2 ^ snd c_030"
  "float64 (7 / 10) = real (fst c_070) / 2 ^ snd c_070"
  "float64 (14 / 10) = real (fst c_140) / 2 ^ snd c_140"
  by (simp_all add: c_030_def c_070_def c_140_def float64_eval)

lemma py_int_mul_agrees:
  "py_int_mul 90 c_070 = Inr (py_int (float64 (float64 90 * float64 (7 / 10))))"
  "py_int_mul 90 c_030 = Inr (py_int (float64 (float64 90 * float64 (3 / 10))))"
  "py_int_mul 1300 c_070 = Inr (py_int (float64 (float64 1300 * float64 (7 / 10))))"
  "py_int_mul 1400 c_070 = Inr (py_int (float64 (float64 1400 * float64 (7 / 10))))"
  "py_int_mul 200 c_140 = Inr (py_int (float64 (float64 200 * float64 (14 / 10))))"
  by (simp_all add: py_int_mul_def c_030_def c_070_def c_140_def to_binary64_def
        round_half_even_def py_int_def float64_eval)

section \<open>Claims\<close>

text \<open>
  C9.  Attack resolution is not atomic on a skill-parse failure: when the skill parser
  fails after a first correct identity guess, \<^verbatim>\<open>process_incoming_attack\<close> returns
  \<^verbatim>\<open>None\<close>, and the roster it leaves has the target revealed and every hero that was
  alive 50 health lower, dead where that reached zero.
\<close>

theorem parse_failure_keeps_breach:
  assumes "in_team t (target_position a)"
    and "p = nat (target_position a)"
    and "lower (guessed_identity a) = lower (name (t ! p))"
    and "\<not> revealed (t ! p)"
    and "parse_skill_with_llm llm (skill a) (attacker_ap a)
           (if status (t ! p) = Alive then max 0 (health (t ! p) - 50) else health (t ! p))
         = Inr None"
  shows "\<exists>t'. process_incoming_attack llm rnd t a = Inr (t', None) \<and> length t' = length t \<and>
           (\<forall>j < length t.
              t' ! j =
                (t ! j)\<lparr> revealed := (j = p \<or> revealed (t ! j)),
                         health := (if status (t ! j) = Alive then max 0 (health (t ! j) - 50)
                                    else health (t ! j)),
                         status := (if status (t ! j) = Alive \<and> health (t ! j) \<le> 50 then Dead
                                    else status (t ! j)) \<rparr>)"
proof -
  have p: "p < length t" using assms(1,2) by (simp add: in_team_def)
  have hp: "health (first_breach t p ! p) =
      (if status (t ! p) = Alive then max 0 (health (t ! p) - 50) else health (t ! p))"
    using p by (simp add: first_breach_nth)
  have "process_incoming_attack llm rnd t a = Inr (first_breach t p, None)"
    unfolding process_incoming_attack_def Let_def assms(2) [symmetric]
    using assms(1,3,4,5) by (simp add: hp)
  then show ?thesis using p by (simp add: first_breach_nth)
qed

theorem parse_failure_keeps_breach_witness:
  "\<exists>t'. process_incoming_attack parser_failing (\<lambda>k. 1 / 2) plain_roster
           (basic_attack 1 ''NORD'') = Inr (t', None) \<and>
        length t' = 4 \<and>
        health (t' ! 0) = 350 \<and> \<not> revealed (t' ! 0) \<and>
        health (t' ! 1) = 350 \<and> revealed (t' ! 1) \<and> status (t' ! 1) = Alive"
proof -
  have 1: "parse_skill_with_llm parser_failing (skill (basic_attack 1 ''NORD'')) (attacker_ap (basic_attack 1 ''NORD'')) 
    (if status (plain_roster ! 1) = Alive then max 0 (health (plain_roster ! 1) - 50) else health (plain_roster ! 1)) = Inr None"
    by (simp add: parse_skill_with_llm_def py_int_mul_200_140 parser_failing_def basic_attack_def)
  have 2: "lower (guessed_identity (basic_attack 1 ''NORD'')) = lower (name (plain_roster ! 1))"
    by (simp add: lower_def lower_char_def basic_attack_def plain_roster_eq)
  have 3: "in_team plain_roster (target_position (basic_attack 1 ''NORD''))"
    by (simp add: basic_attack_def in_team_def plain_roster_eq)
  have 4: "(1::nat) = nat (target_position (basic_attack 1 ''NORD''))"
    by (simp add: basic_attack_def)
  have 5: "\<not> revealed (plain_roster ! 1)" by (simp add: plain_roster_eq)
  from parse_failure_keeps_breach [OF 3 4 2 5 1, of "\<lambda>k. 1 / 2"]
  obtain t' where t': 
    "process_incoming_attack parser_failing (\<lambda>k. 1 / 2) plain_roster (basic_attack 1 ''NORD'')
       = Inr (t', None)"
    "length t' = length plain_roster"
    "\<forall>j < length plain_roster.
        t' ! j =
          (plain_roster ! j)\<lparr> revealed := (j = 1 \<or> revealed (plain_roster ! j)),
             health := (if status (plain_roster ! j) = Alive
                        then max 0 (health (plain_roster ! j) - 50)
                        else health (plain_roster ! j)),
             status := (if status (plain_roster ! j) = Alive \<and> health (plain_roster ! j) \<le> 50
                        then Dead else status (plain_roster ! j)) \<rparr>"
    by blast
  have len: "length t' = 4" using t'(2) by (simp add: plain_roster_eq)
  have "t' ! 0 = (plain_roster ! 0)\<lparr>revealed := False, health := 350, status := Alive\<rparr>"
    using t'(3) [rule_format, of 0] by (simp add: plain_roster_eq)
  moreover have "t' ! 1 = (plain_roster ! 1)\<lparr>revealed := True, health := 350, status := Alive\<rparr>"
    using t'(3) [rule_format, of 1] by (simp add: plain_roster_eq)
  ultimately show ?thesis using t'(1) len by auto
qed




lemma passive_has_apply_damage [simp]:
  "passive_has kw (apply_damage d h) = passive_has kw h"
  by (simp add: apply_damage_def)

lemma subtle_shield_apply_damage [simp]:
  "subtle_shield (apply_damage d h) = subtle_shield h"
  by (simp add: apply_damage_def)

lemma passive_has_steps [simp]:
  "passive_has kw (deflect_tracker d h) = passive_has kw h"
  "passive_has kw (explode_enrage d h) = passive_has kw h"
  "passive_has kw (heal_step d h) = passive_has kw h"
  by (simp_all add: deflect_tracker_def explode_enrage_def heal_step_def Let_def)

lemma resolve_hit_explode:
  assumes "i < length t"
    and "\<not> passive_has ''reduce'' (t ! i)" and "\<not> passive_has ''deflect'' (t ! i)"
    and "\<not> passive_has ''counter'' (t ! i)"
    and "\<not> passive_has ''heal:'' (t ! i)" and "\<not> subtle_shield (t ! i)"
  shows "resolve_hit rnd d (t, k, tcd) i =
           Inr (t[i := check_death (explode_enrage d (apply_damage d (t ! i)))], k,
                tcd + explode_bonus d (apply_damage d (t ! i)))"
  using assms
  by (simp add: resolve_hit_def reduce_deflect_step_def deflect_step_def shield_step_def
        finish_hit_def deflect_tracker_def counter_bonus_def heal_step_def Let_def)

lemma explode_hit:
  assumes "in_team t (target_position a)"
    and "p = nat (target_position a)"
    and "revealed (t ! p) \<or> lower (guessed_identity a) \<noteq> lower (name (t ! p))"
    and "status (t ! p) = Alive"
    and "passive_has ''explode'' (t ! p)"
    and "\<not> passive_has ''reduce'' (t ! p)" and "\<not> passive_has ''deflect'' (t ! p)"
    and "\<not> passive_has ''counter'' (t ! p)"
    and "\<not> passive_has ''heal:'' (t ! p)" and "\<not> subtle_shield (t ! p)"
    and "parse_skill_with_llm llm (skill a) (attacker_ap a) (health (t ! p))
         = Inr (Some \<lparr>damage_amount = d, is_aoe = False, targets_lowest = False\<rparr>)"
    and "0 < d"
  shows "\<exists>t' fb. process_incoming_attack llm rnd t a = Inr (t', Some fb) \<and>
           health (t' ! p) = max 0 (health (t ! p) - d) \<and>
           counter_damage fb = (if d < health (t ! p) then 40 else 0) \<and>
           attack_power (t' ! p) =
             attack_power (t ! p) + (if d < health (t ! p) \<and> health (t ! p) - d < 120 then 15 else 0)"
proof -
  have p: "p < length t" using assms(1,2) by (simp add: in_team_def)
  define h1 where "h1 = apply_damage d (t ! p)"
  define t2 where "t2 = t[p := check_death (explode_enrage d h1)]"
  have nb: "(if lower (guessed_identity a) = lower (name (t ! p)) \<and> \<not> revealed (t ! p)
             then first_breach t p else t) = t"
    using assms(3) by auto
  have tg: "determine_targets t p (attacker_ap a)
               \<lparr>damage_amount = d, is_aoe = False, targets_lowest = False\<rparr> = Inr ([p], d)"
    by (simp add: determine_targets_def assms(4))
  have rs: "resolve_targets rnd d (t, 0, 0) [p] = Inr (t2, 0, explode_bonus d h1)"
    using p assms(6-10) by (simp add: t2_def h1_def resolve_hit_explode)
  have run: "process_incoming_attack llm rnd t a =
       Inr (t2, Some (make_feedback t2 p (lower (guessed_identity a) = lower (name (t ! p)))
                        (name (t ! p)) (explode_bonus d h1)))"
    unfolding process_incoming_attack_def Let_def assms(2) [symmetric] nb
    using assms(1,11) by (simp add: tg rs del: resolve_targets.simps)
  have hh: "health h1 = health (t ! p) - d" "passive_has ''explode'' h1"
    "attack_power h1 = attack_power (t ! p)"
    using assms(5,12) by (simp_all add: h1_def apply_damage_def)
  have tp: "t2 ! p = check_death (explode_enrage d h1)" using p by (simp add: t2_def)
  have a: "health (t2 ! p) = max 0 (health (t ! p) - d)"
    using hh by (auto simp: tp check_death_def explode_enrage_def max_def)
  have b: "explode_bonus d h1 = (if d < health (t ! p) then 40 else 0)"
    using hh assms(12) by (simp add: explode_bonus_def)
  have c: "attack_power (t2 ! p) =
      attack_power (t ! p) + (if d < health (t ! p) \<and> health (t ! p) - d < 120 then 15 else 0)"
    using hh assms(12) by (auto simp: tp check_death_def explode_enrage_def)
  show ?thesis
    apply (rule exI [of _ t2])
    apply (rule exI [of _ "make_feedback t2 p (lower (guessed_identity a) = lower (name (t ! p)))
                        (name (t ! p)) (explode_bonus d h1)"])
    using run a b c by (simp add: make_feedback_def)
qed



lemma explode_attack_guess:
  "revealed (plain_roster ! 3) \<or>
     lower (guessed_identity (basic_attack 3 ''nord'')) \<noteq> lower (name (plain_roster ! 3))"
  by (simp add: basic_attack_def plain_roster_eq lower_def lower_char_def)

lemma explode_attack_facts:
  "in_team plain_roster (target_position (basic_attack 3 ''nord''))"
  "(3::nat) = nat (target_position (basic_attack 3 ''nord''))"
  "revealed (plain_roster ! 3) \<or>
     lower (guessed_identity (basic_attack 3 ''nord'')) \<noteq> lower (name (plain_roster ! 3))"
  "status (plain_roster ! 3) = Alive"
  "passive_has ''explode'' (plain_roster ! 3)"
  "\<not> passive_has ''reduce'' (plain_roster ! 3)" "\<not> passive_has ''deflect'' (plain_roster ! 3)"
  "\<not> passive_has ''counter'' (plain_roster ! 3)"
  "\<not> passive_has ''heal:'' (plain_roster ! 3)" "\<not> subtle_shield (plain_roster ! 3)"
  using explode_attack_guess
  by (simp_all add: basic_attack_def in_team_def plain_roster_eq passive_has_def text_kinds)

lemma explode_parse_fact:
  "parse_skill_with_llm (parser_returning d False False) (skill (basic_attack 3 ''nord''))
      (attacker_ap (basic_attack 3 ''nord'')) (health (plain_roster ! 3))
   = Inr (Some \<lparr>damage_amount = d, is_aoe = False, targets_lowest = False\<rparr>)"
  by (simp add: parse_skill_with_llm_def py_int_mul_200_140 parser_returning_def basic_attack_def)

lemma bosmer_stats:
  "health (plain_roster ! 3) = 400" "attack_power (plain_roster ! 3) = 200"
  by (simp_all add: plain_roster_eq)



lemma lower_infight:
  "lower infight_text =
     ''infight: deal 75 damage on one living teammate and increase your attack points by 140. notice! you can't attack yourself or a dead teammate!''"
  by (simp add: infight_text_def lower_def lower_char_def)

lemma infight_text_kind: "contains_str ''infight'' (lower infight_text)"
  by (simp add: lower_infight)

lemma dead_mate_roster_nth:
  "length dead_mate_roster = 4"
  "dead_mate_roster ! 0 = plain_roster ! 0"
  "dead_mate_roster ! 1 = (plain_roster ! 1)\<lparr>health := 0, status := Dead\<rparr>"
  "dead_mate_roster ! Suc 0 = (plain_roster ! 1)\<lparr>health := 0, status := Dead\<rparr>"
  "alive_heroes dead_mate_roster \<noteq> []"
  by (simp_all add: dead_mate_roster_def plain_roster_eq alive_heroes_def)

text \<open>The sibling checks of \<^verbatim>\<open>_execute_internal_skill\<close>: Infight on the actor itself and
  an internal skill without a target leave the roster as it is.\<close>

lemma infight_on_self_no_mutation:
  "in_team t actor \<Longrightarrow> contains_str ''infight'' (lower sk) \<Longrightarrow>
   execute_internal_skill t actor sk (Some actor) = Inr t"
  by (simp add: execute_internal_skill_def)

lemma internal_skill_without_target_no_mutation:
  "execute_internal_skill t actor sk None = Inr t"
  by (simp add: execute_internal_skill_def)

text \<open>
  C4.  The claim asks that an Infight whose teammate target is dead be rejected without
  any change of state, as the rule in the manager's own prompt says ("You cannot target
  yourself or a dead teammate with Infight").  \<^verbatim>\<open>_execute_internal_skill\<close> checks the
  target for \<^verbatim>\<open>None\<close> and for being the actor, but not for being alive: with hero 1 dead,
  hero 0's Infight on hero 1 is executed, hero 0 gains 140 attack power and the turn is
  reported as an internal action.
\<close>
theorem infight_on_dead_teammate_executes:
  "status (dead_mate_roster ! 1) = Dead \<and>
   attack_power (dead_mate_roster ! 0) = 200 \<and>
   (\<exists>t'. select_hero_for_turn dead_mate_roster (ChainReturns (infight_reply 0 (Some 1)))
            = (InternalAction (infight_reply 0 (Some 1)) 200, t') \<and>
         attack_power (t' ! 0) = 340 \<and> status (t' ! 1) = Dead \<and> health (t' ! 1) = 0)"
  by (simp add: select_hero_for_turn_def dead_mate_roster_nth infight_reply_def in_team_def
        execute_internal_skill_def infight_text_kind lose_health_def check_death_def
        plain_roster_eq)

section \<open>Two scripted episodes\<close>


lemma roster_a_eq:
  "initialize_team roster_a_data =
     [hero_at 0 ''Redguard'' deflect_text 400 Alive, hero_at 1 ''Argonian'' counter_text 400 Alive,
      hero_at 2 ''Khajit'' counter_text 400 Alive, hero_at 3 ''Nord'' reduce_text 400 Alive]"
  by (simp add: roster_a_data_def initialize_team_def enumerate_eq_zip new_hero_def pool_hero_def
        upt_conv_Cons hero_at_def)

lemma roster_b_eq:
  "initialize_team roster_b_data =
     [hero_at 0 ''Redguard'' deflect_text 400 Alive, hero_at 1 ''Nord'' reduce_text 400 Alive,
      hero_at 2 ''Imperial'' heal_text 400 Alive, hero_at 3 ''Onsimer'' heal_text 400 Alive]"
  by (simp add: roster_b_data_def initialize_team_def enumerate_eq_zip new_hero_def pool_hero_def
        upt_conv_Cons hero_at_def)

lemmas hit_defs = resolve_hit_def reduce_deflect_step_def deflect_step_def shield_step_def
  finish_hit_def deflect_tracker_def counter_bonus_def explode_bonus_def explode_enrage_def
  heal_step_def apply_damage_def check_death_def lose_health_def alive_mates_def share_damage_def
  passive_has_def text_kinds Let_def upt_conv_Cons

lemmas attack_defs = process_incoming_attack_def in_team_def parser_returning_def
  parse_skill_with_llm_def determine_targets_def alive_positions_def make_feedback_def

lemma py_int_mul_values:
  "py_int_mul 1300 c_030 = Inr 390" "py_int_mul 1300 c_070 = Inr 909"
  "py_int_mul 1400 c_030 = Inr 420" "py_int_mul 1400 c_070 = Inr 979"
  "py_int_mul 2000 c_030 = Inr 600" "py_int_mul 2000 c_070 = Inr 1400"
  "py_int_mul 240 c_140 = Inr 336"
  by (simp_all add: py_int_mul_def c_030_def c_070_def c_140_def to_binary64_def
        bit_length.simps round_half_even_def)

lemma lower_names:
  "lower ''Breton'' = ''breton''" "lower ''Redguard'' = ''redguard''" "lower ''Nord'' = ''nord''"
  "lower ''Imperial'' = ''imperial''" "lower ''Argonian'' = ''argonian''"
  "lower ''Basic Attack'' = ''basic attack''"
  by (simp_all add: lower_def lower_char_def)

text \<open>An episode in which a healed roster ends above its starting health.\<close>

lemma heal_hit:
  "process_incoming_attack (parser_returning 10 False False) (\<lambda>k. 1 / 2)
      (initialize_team roster_b_data)
      \<lparr> target_position = 2, guessed_identity = ''Breton'', skill = ''Basic Attack'',
        attacker_ap = 200 \<rparr> =
     Inr ([hero_at 0 ''Redguard'' deflect_text 400 Alive, hero_at 1 ''Nord'' reduce_text 400 Alive,
           hero_at 2 ''Imperial'' heal_text 410 Alive, hero_at 3 ''Onsimer'' heal_text 400 Alive],
          Some \<lparr> guess_correct = False, actual_identity = None, counter_damage = 0,
                 target_health = 410, target_status = Alive, all_dead_positions = [] \<rparr>)"
  by (simp add: attack_defs py_int_mul_200_140 lower_names roster_b_eq hit_defs hero_at_def)

lemma heal_turn_a:
  "perform_turn (episode_oracles 2 10 False 2000) n TeamA
      (initialize_team roster_a_data) (initialize_team roster_b_data) =
     Inr (Continue, initialize_team roster_a_data,
          [hero_at 0 ''Redguard'' deflect_text 400 Alive, hero_at 1 ''Nord'' reduce_text 400 Alive,
           hero_at 2 ''Imperial'' heal_text 410 Alive, hero_at 3 ''Onsimer'' heal_text 400 Alive])"
proof -
  have "attack_power (initialize_team roster_a_data ! 1) = 200"
    "alive_heroes (initialize_team roster_a_data) \<noteq> []" "length (initialize_team roster_a_data) = 4"
    by (simp_all add: roster_a_eq hero_at_def alive_heroes_def)
  then show ?thesis
    by (simp add: perform_turn_def select_hero_for_turn_def get_turn_decision_def
          episode_oracles_def attack_reply_def in_team_def lower_names heal_hit)
qed

lemma aoe_2000_hit:
  "process_incoming_attack (parser_returning 2000 True False) (\<lambda>k. 1 / 2)
      (initialize_team roster_a_data)
      \<lparr> target_position = 0, guessed_identity = ''Breton'', skill = ''Basic Attack'',
        attacker_ap = 200 \<rparr> =
     Inr (wiped_a,
          Some \<lparr> guess_correct = False, actual_identity = None, counter_damage = 0,
                 target_health = 0, target_status = Dead, all_dead_positions = [0, 1, 2, 3] \<rparr>)"
  by (simp add: attack_defs py_int_mul_200_140 py_int_mul_values lower_names roster_a_eq hit_defs
        hero_at_def wiped_a_def)

lemma heal_turn_b:
  "perform_turn (episode_oracles 2 10 False 2000) n TeamB healed_b (initialize_team roster_a_data) =
     Inr (Continue, healed_b, wiped_a)"
proof -
  have "attack_power (healed_b ! 0) = 200" "alive_heroes healed_b \<noteq> []" "length healed_b = 4"
    by (simp_all add: healed_b_def hero_at_def alive_heroes_def)
  then show ?thesis
    by (simp add: perform_turn_def select_hero_for_turn_def get_turn_decision_def
          episode_oracles_def attack_reply_def in_team_def lower_names aoe_2000_hit)
qed

lemma defeat_turn:
  "alive_heroes act = [] \<Longrightarrow> perform_turn orc n s act pas = Inr (GameOver, act, pas)"
  by (simp add: perform_turn_def select_hero_for_turn_def get_turn_decision_def)

lemma wiped_a_facts:
  "alive_heroes wiped_a = []" "get_alive_count wiped_a = 0" "get_total_team_health wiped_a = 0"
  by (simp_all add: wiped_a_def hero_at_def alive_heroes_def get_alive_count_def
        get_total_team_health_def)

lemma healed_b_facts:
  "get_alive_count healed_b = 4" "get_total_team_health healed_b = 1610"
  by (simp_all add: healed_b_def hero_at_def get_alive_count_def get_total_team_health_def)

lemma rosters_nonempty: "roster_a_data \<noteq> []" "roster_b_data \<noteq> []"
  by (simp_all add: roster_a_data_def roster_b_data_def)

lemma heal_battle:
  "battle 2 (episode_oracles 2 10 False 2000) n
      (initialize_team roster_a_data) (initialize_team roster_b_data) =
     Some (Inr (Some (wiped_a, healed_b)))"
  by (simp add: numeral_2_eq_2 heal_turn_a [folded healed_b_def] heal_turn_b defeat_turn
        wiped_a_facts)

lemma heal_episode:
  "run_game_loop 2 (episode_oracles 2 10 False 2000) (Some roster_a_data) (Some roster_b_data) 1 =
     Some (Inr (Some \<lparr> winner = ''Team B'', damage_dealt_by_a = - 10,
                        damage_dealt_by_b = 1600 \<rparr>))"
  by (simp add: run_game_loop_def apply_difficulty_scaling_def heal_battle post_game_stats_def
        start_hp_b_def wiped_a_facts healed_b_facts rosters_nonempty)









text \<open>
  C10.  Health has no upper bound.  A Heal hero at its initial 400 health that is hit for
  10 ends the hit at 410; in the scripted episode that follows, team B, which started with
  1600 health in total, ends with 1610, and the damage dealt that the episode records for
  team A is -10.
\<close>
theorem heal_exceeds_starting_health:
  "health (initialize_team roster_b_data ! 2) = 400 \<and>
   passive_has ''heal:'' (initialize_team roster_b_data ! 2) \<and>
   (\<exists>t' fb. process_incoming_attack (parser_returning 10 False False) (\<lambda>k. 1 / 2)
               (initialize_team roster_b_data)
               \<lparr> target_position = 2, guessed_identity = ''Breton'', skill = ''Basic Attack'',
                 attacker_ap = 200 \<rparr> = Inr (t', Some fb) \<and>
            health (t' ! 2) = 410) \<and>
   get_total_team_health (initialize_team roster_b_data) = 1600 \<and>
   (\<exists>a b. battle 2 (episode_oracles 2 10 False 2000) 1
             (initialize_team roster_a_data) (initialize_team roster_b_data)
           = Some (Inr (Some (a, b))) \<and>
          get_total_team_health b = 1610) \<and>
   run_game_loop 2 (episode_oracles 2 10 False 2000) (Some roster_a_data) (Some roster_b_data) 1 =
     Some (Inr (Some \<lparr> winner = ''Team B'', damage_dealt_by_a = - 10,
                        damage_dealt_by_b = 1600 \<rparr>))"
proof -
  have "health (initialize_team roster_b_data ! 2) = 400"
    "passive_has ''heal:'' (initialize_team roster_b_data ! 2)"
    "get_total_team_health (initialize_team roster_b_data) = 1600"
    by (simp_all add: roster_b_eq hero_at_def passive_has_def text_kinds get_total_team_health_def)
  moreover have "health (healed_b ! 2) = 410" by (simp add: healed_b_def hero_at_def)
  ultimately show ?thesis
    using heal_hit [folded healed_b_def] heal_battle [of 1] heal_episode healed_b_facts(2)
    by simp
qed

lemma float64_abs_le_pow2:
  assumes "\<bar>x\<bar> \<le> 2 powi k" and "- 1074 \<le> k"
  shows "\<bar>float64 x\<bar> \<le> 2 powi k"
  unfolding float64_abs using assms by (intro float64_le_pow2) simp_all

lemma float64_unit:
  assumes "0 \<le> x" and "x \<le> 1"
  shows "0 \<le> float64 x" and "float64 x \<le> 1"
proof -
  show "0 \<le> float64 x" using assms(1) by (rule float64_nonneg)
  have "float64 x \<le> 2 powi 0" using assms by (intro float64_le_pow2) simp_all
  then show "float64 x \<le> 1" by simp
qed

lemma float64_neg:
  assumes "x \<le> - (2 powi k)" and "- 1074 \<le> k"
  shows "float64 x \<le> - (2 powi k)"
proof -
  have "2 powi k \<le> float64 (- x)" using assms by (intro float64_ge_pow2) simp_all
  then show ?thesis by (simp add: float64_minus)
qed

lemma py_true_div_cases:
  assumes "b \<noteq> 0"
  shows "py_true_div a b =
           (if 2 ^ 1024 \<le> \<bar>float64 (of_int a / of_int b)\<bar> then Inl OverflowError
            else Inr (float64 (of_int a / of_int b)))"
  using assms by (simp add: py_true_div_def Let_def)

lemma metrics_unfold:
  assumes "py_true_div (int (length (filter (\<lambda>r. winner r = team_name s) results)))
             (int (length results)) = Inr wr"
  shows "calculate_metrics results s =
           (case py_true_div (sum_list (map (damage_of s) results)) (int (length results)) of
              Inl e \<Rightarrow> Inl e
            | Inr avg \<Rightarrow>
                Inr (wr, float64 (avg / 1600),
                     float64 (float64 (float64 (7 / 10) * wr)
                              + float64 (float64 (3 / 10) * float64 (avg / 1600))),
                     length (filter (\<lambda>r. winner r = team_name s) results)))"
  unfolding calculate_metrics_def Let_def
  by (simp only: assms sum.case)

lemma metrics_facts:
  fixes results :: "episode_stats list" and s :: side
  assumes "results \<noteq> []" and "length results < 2 ^ 63"
  defines "n \<equiv> length results"
  defines "wins \<equiv> length (filter (\<lambda>r. winner r = team_name s) results)"
  defines "tot \<equiv> sum_list (map (damage_of s) results)"
  defines "win_rate \<equiv> float64 (real wins / real n)"
  defines "avg \<equiv> float64 (real_of_int tot / real n)"
  defines "damage_rate \<equiv> float64 (avg / 1600)"
  defines "reward \<equiv> float64 (float64 (float64 (7 / 10) * win_rate)
                               + float64 (float64 (3 / 10) * damage_rate))"
  shows "0 \<le> win_rate" and "win_rate \<le> 1"
    and "2 ^ 1024 \<le> \<bar>avg\<bar> \<Longrightarrow> calculate_metrics results s = Inl OverflowError"
    and "2 ^ 1024 \<le> \<bar>avg\<bar> \<Longrightarrow> 2 ^ 1023 * int n < \<bar>tot\<bar>"
    and "\<bar>avg\<bar> < 2 ^ 1024 \<Longrightarrow>
           calculate_metrics results s = Inr (win_rate, damage_rate, reward, wins)"
    and "\<bar>avg\<bar> < 2 ^ 1024 \<Longrightarrow> \<bar>damage_rate\<bar> < 2 ^ 1024"
    and "\<bar>avg\<bar> < 2 ^ 1024 \<Longrightarrow> \<bar>reward\<bar> < 2 ^ 1024"
    and "0 \<le> damage_rate \<longleftrightarrow> 0 \<le> tot"
proof -
  have n: "0 < n" "real n < 2 ^ 63" using assms(1,2) by (simp_all add: n_def)
  have "wins \<le> n" unfolding wins_def n_def by (rule length_filter_le)
  then have q: "0 \<le> real wins / real n" "real wins / real n \<le> 1"
    using n(1) by (simp_all add: divide_le_eq_1)
  show wr: "0 \<le> win_rate" "win_rate \<le> 1"
    unfolding win_rate_def using q by (rule float64_unit)+
  have d1: "py_true_div (int wins) (int n) = Inr win_rate"
    using n(1) wr by (simp add: py_true_div_cases win_rate_def [symmetric])
  note unf = metrics_unfold [of s results, folded wins_def n_def tot_def, OF d1]
  have d2: "py_true_div tot (int n) =
              (if 2 ^ 1024 \<le> \<bar>avg\<bar> then Inl OverflowError else Inr avg)"
    using n(1) by (simp add: py_true_div_cases avg_def)
  show "calculate_metrics results s = Inl OverflowError" if "2 ^ 1024 \<le> \<bar>avg\<bar>"
    unfolding unf d2 using that by simp
  show "calculate_metrics results s = Inr (win_rate, damage_rate, reward, wins)"
    if "\<bar>avg\<bar> < 2 ^ 1024"
    unfolding unf d2 using that by (simp add: damage_rate_def reward_def)
  show "2 ^ 1023 * int n < \<bar>tot\<bar>" if big: "2 ^ 1024 \<le> \<bar>avg\<bar>"
  proof (rule ccontr)
    assume "\<not> 2 ^ 1023 * int n < \<bar>tot\<bar>"
    then have "\<bar>tot\<bar> \<le> 2 ^ 1023 * int n" by simp
    then have "real_of_int \<bar>tot\<bar> \<le> real_of_int (2 ^ 1023 * int n)" by (simp only: of_int_le_iff)
    then have "\<bar>real_of_int tot\<bar> \<le> 2 ^ 1023 * real n" by simp
    then have "\<bar>real_of_int tot / real n\<bar> \<le> 2 ^ 1023"
      using n(1) by (simp add: field_simps)
    then have "\<bar>real_of_int tot / real n\<bar> \<le> 2 powi 1023" by simp
    then have "\<bar>avg\<bar> \<le> 2 powi 1023" unfolding avg_def by (rule float64_abs_le_pow2) simp
    then show False using big by simp
  qed
  have dr: "\<bar>damage_rate\<bar> \<le> 2 powi 1014" if "\<bar>avg\<bar> < 2 ^ 1024"
  proof -
    have "\<bar>avg / 1600\<bar> \<le> 2 ^ 1024 / 1024" using that by simp
    then have "\<bar>avg / 1600\<bar> \<le> 2 powi 1014" by simp
    then show ?thesis unfolding damage_rate_def by (rule float64_abs_le_pow2) simp
  qed
  then show "\<bar>damage_rate\<bar> < 2 ^ 1024" if "\<bar>avg\<bar> < 2 ^ 1024"
    using that by fastforce
  show "\<bar>reward\<bar> < 2 ^ 1024" if "\<bar>avg\<bar> < 2 ^ 1024"
  proof -
    have c7: "0 \<le> float64 (7 / 10)" "float64 (7 / 10) \<le> 1"
      by (rule float64_unit; simp)+
    have c3: "0 \<le> float64 (3 / 10)" "float64 (3 / 10) \<le> 1"
      by (rule float64_unit; simp)+
    have "0 \<le> float64 (7 / 10) * win_rate" "float64 (7 / 10) * win_rate \<le> 1"
      using c7 wr by (simp_all add: mult_le_one)
    then have p1: "\<bar>float64 (float64 (7 / 10) * win_rate)\<bar> \<le> 1"
      using float64_unit [of "float64 (7 / 10) * win_rate"] by simp
    have "\<bar>float64 (3 / 10) * damage_rate\<bar> \<le> 1 * \<bar>damage_rate\<bar>"
      unfolding abs_mult using c3 by (intro mult_right_mono) simp_all
    then have "\<bar>float64 (3 / 10) * damage_rate\<bar> \<le> 2 powi 1014" using dr [OF that] by simp
    then have p2: "\<bar>float64 (float64 (3 / 10) * damage_rate)\<bar> \<le> 2 powi 1014"
      by (rule float64_abs_le_pow2) simp
    have "\<bar>float64 (float64 (7 / 10) * win_rate) + float64 (float64 (3 / 10) * damage_rate)\<bar>
            \<le> 1 + 2 powi 1014"
      using p1 p2 by linarith
    also have "\<dots> \<le> 2 powi 1015" by simp
    finally have "\<bar>reward\<bar> \<le> 2 powi 1015" unfolding reward_def by (rule float64_abs_le_pow2) simp
    then show ?thesis by simp
  qed
  show "0 \<le> damage_rate \<longleftrightarrow> 0 \<le> tot"
  proof (cases "0 \<le> tot")
    case True
    then have "0 \<le> real_of_int tot / real n" by simp
    then have "0 \<le> avg" unfolding avg_def by (rule float64_nonneg)
    then have "0 \<le> avg / 1600" by simp
    then have "0 \<le> damage_rate" unfolding damage_rate_def by (rule float64_nonneg)
    then show ?thesis using True by simp
  next
    case False
    then have "tot \<le> - 1" by simp
    then have "real_of_int tot \<le> - 1" by linarith
    then have "real_of_int tot / real n \<le> - 1 / real n"
      by (rule divide_right_mono) simp
    moreover have "1 / 2 ^ 63 \<le> 1 / real n" using n by (simp add: field_simps)
    ultimately have "real_of_int tot / real n \<le> - (2 powi (- 63))"
      by (simp add: power_int_minus_divide)
    then have "avg \<le> - (2 powi (- 63))" unfolding avg_def by (rule float64_neg) simp
    then have "avg / 1600 \<le> - (2 powi (- 63)) / 1600" by (simp add: divide_right_mono)
    also have "\<dots> \<le> - (2 powi (- 74))" by (simp add: power_int_minus_divide)
    finally have "damage_rate \<le> - (2 powi (- 74))"
      unfolding damage_rate_def by (rule float64_neg) simp
    moreover have "0 < (2::real) powi (- 74)" by simp
    ultimately have "damage_rate < 0" by linarith
    then show ?thesis using False by simp
  qed
qed

text \<open>
  C7 (amended).  For a non-empty list of episode results and either side,
  \<^verbatim>\<open>calculate_metrics\<close> either raises \<^verbatim>\<open>OverflowError\<close>, which takes a summed damage
  beyond \<open>2 ^ 1023\<close> per game, or returns a win rate in \<open>[0, 1]\<close>, the damage rate
  \<^verbatim>\<open>(total_damage / total_games) / 1600.0\<close> and the reward
  \<^verbatim>\<open>(0.7 * win_rate) + (0.3 * damage_rate)\<close>, a function of the two rates; every
  operation is a binary64 operation, rounded to the nearest float, and none of them
  overflows.  The damage rate is not always \<open>\<ge> 0\<close>: it is so exactly when the summed
  damage dealt is, and an episode can record negative damage.  (A Python list has fewer
  than \<open>2 ^ 63\<close> items.)
\<close>
theorem reward_bounds:
  assumes "results \<noteq> []" and "length results < 2 ^ 63"
  shows "(calculate_metrics results s = Inl OverflowError \<and>
          2 ^ 1023 * int (length results) < \<bar>sum_list (map (damage_of s) results)\<bar>) \<or>
         (\<exists>win_rate damage_rate reward wins.
            calculate_metrics results s = Inr (win_rate, damage_rate, reward, wins) \<and>
            wins = length (filter (\<lambda>r. winner r = team_name s) results) \<and>
            win_rate = float64 (real wins / real (length results)) \<and>
            0 \<le> win_rate \<and> win_rate \<le> 1 \<and>
            damage_rate =
              float64 (float64 (real_of_int (sum_list (map (damage_of s) results))
                                  / real (length results)) / 1600) \<and>
            (0 \<le> damage_rate \<longleftrightarrow> 0 \<le> sum_list (map (damage_of s) results)) \<and>
            reward = float64 (float64 (float64 (7 / 10) * win_rate)
                              + float64 (float64 (3 / 10) * damage_rate)) \<and>
            \<bar>damage_rate\<bar> < 2 ^ 1024 \<and> \<bar>reward\<bar> < 2 ^ 1024)"
proof (cases "2 ^ 1024 \<le> \<bar>float64 (real_of_int (sum_list (map (damage_of s) results))
                                     / real (length results))\<bar>")
  case True
  show ?thesis using metrics_facts(3,4) [OF assms True] by simp
next
  case False
  then have a: "\<bar>float64 (real_of_int (sum_list (map (damage_of s) results))
                           / real (length results))\<bar> < 2 ^ 1024" by simp
  show ?thesis
    using metrics_facts(1,2,8) [OF assms, of s] metrics_facts(5,6,7) [OF assms a]
    by simp
qed

theorem reward_bounds_witness:
  "\<exists>win_rate damage_rate reward wins.
     calculate_metrics
       [\<lparr> winner = ''Team A'', damage_dealt_by_a = 1600, damage_dealt_by_b = 800 \<rparr>,
        \<lparr> winner = ''Draw'', damage_dealt_by_a = 1600, damage_dealt_by_b = 1600 \<rparr>] TeamA
       = Inr (win_rate, damage_rate, reward, wins) \<and>
     win_rate = 1 / 2 \<and> damage_rate = 1 \<and>
     reward = 1463669878895411 / 2251799813685248 \<and> wins = 1"
proof -
  let ?rs = "[\<lparr> winner = ''Team A'', damage_dealt_by_a = 1600, damage_dealt_by_b = 800 \<rparr>,
        \<lparr> winner = ''Draw'', damage_dealt_by_a = 1600, damage_dealt_by_b = 1600 \<rparr>]"
  have "?rs \<noteq> []" "length ?rs < 2 ^ 63" by simp_all
  from reward_bounds [OF this, of TeamA]
  obtain win_rate damage_rate reward wins where r:
    "calculate_metrics ?rs TeamA = Inr (win_rate, damage_rate, reward, wins)"
    "wins = length (filter (\<lambda>r. winner r = team_name TeamA) ?rs)"
    "win_rate = float64 (real wins / real (length ?rs))"
    "damage_rate = float64 (float64 (real_of_int (sum_list (map (damage_of TeamA) ?rs))
                                       / real (length ?rs)) / 1600)"
    "reward = float64 (float64 (float64 (7 / 10) * win_rate)
                       + float64 (float64 (3 / 10) * damage_rate))"
    by (auto simp: damage_of_def)
  have w: "wins = 1" using r(2) by simp
  have wr: "win_rate = 1 / 2" using r(3) w by (simp add: float64_samples)
  have dr: "damage_rate = 1" using r(4) by (simp add: damage_of_def float64_samples)
  have "reward = 1463669878895411 / 2251799813685248"
    unfolding r(5) wr dr float64_consts by (simp add: float64_eval)
  then show ?thesis using r(1) w wr dr by blast
qed

theorem negative_damage_rate:
  "\<exists>stats win_rate damage_rate reward wins.
     run_game_loop 2 (episode_oracles 2 10 False 2000) (Some roster_a_data) (Some roster_b_data) 1
       = Some (Inr (Some stats)) \<and>
     calculate_metrics [stats] TeamA = Inr (win_rate, damage_rate, reward, wins) \<and>
     damage_rate < 0"
proof -
  let ?rs = "[\<lparr> winner = ''Team B'', damage_dealt_by_a = - 10, damage_dealt_by_b = 1600 \<rparr>]"
  have ne: "?rs \<noteq> []" "length ?rs < 2 ^ 63" by simp_all
  have t: "sum_list (map (damage_of TeamA) ?rs) = - 10" by (simp add: damage_of_def)
  have "\<bar>float64 (- 10)\<bar> \<le> 2 powi 4" by (rule float64_abs_le_pow2) simp_all
  then have "\<bar>float64 (- 10)\<bar> < 2 ^ 1024" by simp
  then have a: "\<bar>float64 (real_of_int (sum_list (map (damage_of TeamA) ?rs))
                          / real (length ?rs))\<bar> < 2 ^ 1024"
    unfolding t by simp
  have "\<exists>win_rate damage_rate reward wins.
          calculate_metrics ?rs TeamA = Inr (win_rate, damage_rate, reward, wins) \<and>
          damage_rate < 0"
    using metrics_facts(5) [OF ne a] metrics_facts(8) [OF ne, of TeamA] unfolding t by auto
  then show ?thesis using heal_episode by blast
qed






lemma py_int_sqrt_2:
  "py_int (float64 (400 * float64 (sqrt 2))) = 565"
  "py_int (float64 (200 * float64 (sqrt 2))) = 282"
  "py_int (float64 (1600 * float64 (sqrt 2))) = 2262"
  unfolding float64_sqrt_2 scaled_values by (simp_all add: py_int_def)

text \<open>
  The rounding shows at difficulty 5.29: the square root of the float nearest to 5.29 is
  the float just below 2.3, and the scaled statistics are 919 and 459, not 920 and 460.
\<close>

lemma float64_529: "float64 (529 / 100) = 5956010507197481 / 1125899906842624"
  by (simp add: float64_eval)

lemma sqrt_529_enclosure:
  "10358279142952139 / 2 ^ 52 < sqrt (5956010507197481 / 1125899906842624)"
  "sqrt (5956010507197481 / 1125899906842624) < 10358279142952141 / 2 ^ 52"
proof -
  show "10358279142952139 / 2 ^ 52 < sqrt (5956010507197481 / 1125899906842624)"
    by (rule real_less_rsqrt) (simp add: power2_eq_square)
  show "sqrt (5956010507197481 / 1125899906842624) < 10358279142952141 / 2 ^ 52"
    by (rule real_less_lsqrt) (simp_all add: power2_eq_square)
qed

lemma float64_sqrt_529:
  "float64 (sqrt (5956010507197481 / 1125899906842624)) = 2589569785738035 / 1125899906842624"
proof -
  let ?d = "5956010507197481 / 1125899906842624 :: real"
  have b: "2 \<le> sqrt ?d" "sqrt ?d < 3" using sqrt_529_enclosure by simp_all
  then have "\<lfloor>sqrt ?d\<rfloor> = 2" by (simp add: floor_eq_iff)
  then have e: "ilog2 (sqrt ?d) = 1" using b(1) by (simp add: ilog2_def bit_length.simps)
  have "round_even (sqrt ?d * 2 ^ 51) = 5179139571476070"
    by (rule round_even_eq) (use sqrt_529_enclosure in simp_all)
  then have r: "round_even (sqrt ?d * 2251799813685248) = 5179139571476070" by simp
  have pos: "0 < sqrt ?d" using b(1) by linarith
  show ?thesis
    unfolding float64_pos_eq [OF pos] e by (simp add: power_int_minus_divide r)
qed

lemma scaled_values_529:
  "float64 (400 * (2589569785738035 / 1125899906842624)) = 8092405580431359 / 8796093022208"
  "float64 (200 * (2589569785738035 / 1125899906842624)) = 8092405580431359 / 17592186044416"
  "float64 (1600 * (2589569785738035 / 1125899906842624)) = 8092405580431359 / 2199023255552"
  by (simp_all add: float64_eval)

lemma scaling_at_529:
  "py_int (float64 (400 * float64 (sqrt (float64 (529 / 100))))) = 919"
  "py_int (float64 (200 * float64 (sqrt (float64 (529 / 100))))) = 459"
  "py_int (float64 (1600 * float64 (sqrt (float64 (529 / 100))))) = 3679"
  unfolding float64_529 float64_sqrt_529 scaled_values_529 by (simp_all add: py_int_def)

lemma scaling_example:
  "start_hp_b (float64 (529 / 100)) = 3679"
  "\<exists>scaled. apply_difficulty_scaling roster_b_data (float64 (529 / 100)) = Inr scaled \<and>
      map health (initialize_team scaled) = [919, 919, 919, 919] \<and>
      map attack_power (initialize_team scaled) = [459, 459, 459, 459]"
proof -
  have d: "float64 (529 / 100) \<noteq> 1" "\<not> float64 (529 / 100) < 0" by (simp_all add: float64_529)
  show "start_hp_b (float64 (529 / 100)) = 3679"
    using d by (simp add: start_hp_b_def scaling_at_529)
  show "\<exists>scaled. apply_difficulty_scaling roster_b_data (float64 (529 / 100)) = Inr scaled \<and>
      map health (initialize_team scaled) = [919, 919, 919, 919] \<and>
      map attack_power (initialize_team scaled) = [459, 459, 459, 459]"
    using d
    by (simp add: apply_difficulty_scaling_def roster_b_data_def pool_hero_def scaling_at_529
          initialize_team_def enumerate_eq_zip new_hero_def upt_conv_Cons Let_def)
qed

text \<open>
  C8.  The claim asks the recorded damage to be the opponent's starting total health minus
  its final total health.  With difficulty 2 each hero of team B starts with
  \<^verbatim>\<open>int(400 * sqrt(2))\<close> = 565 health, 2260 in total, while \<^verbatim>\<open>run_game_loop\<close> takes
  \<^verbatim>\<open>int(1600 * sqrt(2))\<close> = 2262 as the starting total: a team B that lost no health at
  all is recorded as having taken 2 damage.
\<close>
theorem scaled_start_health_mismatch:
  "\<exists>scaled. apply_difficulty_scaling roster_b_data 2 = Inr scaled \<and>
      map health (initialize_team scaled) = [565, 565, 565, 565] \<and>
      get_total_team_health (initialize_team scaled) = 2260 \<and>
      start_hp_b 2 = 2262 \<and>
      damage_dealt_by_a (post_game_stats 2 a (initialize_team scaled)) = 2"
  by (simp add: apply_difficulty_scaling_def roster_b_data_def pool_hero_def py_int_sqrt_2
        initialize_team_def enumerate_eq_zip new_hero_def upt_conv_Cons
        get_total_team_health_def start_hp_b_def post_game_stats_def Let_def)

section \<open>The health invariant\<close>

lemma team_ok_nth: "team_ok t \<Longrightarrow> i < length t \<Longrightarrow> health_ok (t ! i)"
  by (simp add: team_ok_def list_all_length)

lemma team_ok_update:
  "team_ok t \<Longrightarrow> (i < length t \<Longrightarrow> health_ok x) \<Longrightarrow> team_ok (t[i := x])"
  by (cases "i < length t") (auto simp: team_ok_def list_all_length nth_list_update)

lemma health_ok_other_fields [simp]:
  "health_ok (h\<lparr>attack_power := x\<rparr>) = health_ok h"
  "health_ok (h\<lparr>revealed := b\<rparr>) = health_ok h"
  "health_ok (h\<lparr>subtle_shield := b\<rparr>) = health_ok h"
  "health_ok (h\<lparr>accumulated_damage := x\<rparr>) = health_ok h"
  "health_ok (h\<lparr>buff_threshold := x\<rparr>) = health_ok h"
  by (simp_all add: health_ok_def)

lemma lose_health_ok: "health_ok h \<Longrightarrow> 0 \<le> d \<Longrightarrow> health_ok (lose_health d h)"
  by (cases "status h") (auto simp: health_ok_def lose_health_def check_death_def)

lemma finish_hero_ok:
  "health_ok h \<Longrightarrow>
   health_ok (check_death (heal_step d (explode_enrage d (deflect_tracker d (apply_damage d h)))))"
  by (cases "status h")
     (auto simp: health_ok_def check_death_def heal_step_def explode_enrage_def
        deflect_tracker_def apply_damage_def Let_def)

lemma py_int_mul_nonneg: "py_int_mul d c = Inr v \<Longrightarrow> 0 \<le> d \<Longrightarrow> 0 \<le> v"
  by (auto simp: py_int_mul_def sgn_if split: prod.splits if_splits)

lemma share_damage_ok:
  "team_ok t \<Longrightarrow> 0 \<le> per \<Longrightarrow> team_ok (share_damage per t mates)"
  unfolding share_damage_def
proof (induction mates arbitrary: t)
  case Nil
  then show ?case by simp
next
  case (Cons j mates)
  have "team_ok (t[j := lose_health per (t ! j)])"
    using Cons.prems by (intro team_ok_update) (auto intro: lose_health_ok team_ok_nth)
  then show ?case using Cons by simp
qed

lemma deflect_step_ok:
  "team_ok t \<Longrightarrow> deflect_step t i d = Inr (t', d') \<Longrightarrow> team_ok t'"
  by (auto simp: deflect_step_def Let_def split: if_splits sum.splits
      intro!: share_damage_ok pos_imp_zdiv_nonneg_iff [THEN iffD2] dest: py_int_mul_nonneg)

lemma reduce_deflect_step_ok:
  "team_ok t \<Longrightarrow> reduce_deflect_step rnd t k i d = Inr (t', k', d') \<Longrightarrow> team_ok t'"
  by (auto simp: reduce_deflect_step_def split: if_splits sum.splits dest: deflect_step_ok)

lemma shield_step_ok:
  "team_ok t \<Longrightarrow> shield_step t i d = Inr (t', d') \<Longrightarrow> team_ok t'"
  by (auto simp: shield_step_def Let_def split: if_splits sum.splits
      intro!: team_ok_update dest: team_ok_nth)

lemma finish_hit_ok:
  "team_ok t \<Longrightarrow> finish_hit t i d tcd = (t', tcd') \<Longrightarrow> team_ok t'"
  by (auto simp: finish_hit_def Let_def intro!: team_ok_update finish_hero_ok dest: team_ok_nth)

lemma resolve_hit_ok:
  assumes "team_ok t" and "resolve_hit rnd d (t, k, tcd) i = Inr (t', k', tcd')"
  shows "team_ok t'"
proof -
  from assms(2) obtain t1 k1 d1 where 1: "reduce_deflect_step rnd t k i d = Inr (t1, k1, d1)"
    by (cases "reduce_deflect_step rnd t k i d") (auto simp: resolve_hit_def)
  with assms(2) obtain t2 d2 where 2: "shield_step t1 i d1 = Inr (t2, d2)"
    by (cases "shield_step t1 i d1") (auto simp: resolve_hit_def)
  obtain t3 tcd3 where 3: "finish_hit t2 i d2 tcd = (t3, tcd3)"
    by (cases "finish_hit t2 i d2 tcd")
  have "t' = t3" using assms(2) 1 2 3 by (simp add: resolve_hit_def)
  moreover have "team_ok t1" using assms(1) 1 by (rule reduce_deflect_step_ok)
  then have "team_ok t2" using 2 by (rule shield_step_ok)
  then have "team_ok t3" using 3 by (rule finish_hit_ok)
  ultimately show ?thesis by simp
qed

lemma resolve_targets_ok:
  "team_ok (fst st) \<Longrightarrow> resolve_targets rnd d st targets = Inr st' \<Longrightarrow> team_ok (fst st')"
proof (induction targets arbitrary: st)
  case Nil
  then show ?case by simp
next
  case (Cons i targets)
  obtain t k tcd where st: "st = (t, k, tcd)" by (cases st)
  from Cons.prems(2) obtain st1 where
    1: "resolve_hit rnd d st i = Inr st1" and 2: "resolve_targets rnd d st1 targets = Inr st'"
    by (auto split: sum.splits)
  obtain t1 k1 tcd1 where st1: "st1 = (t1, k1, tcd1)" by (cases st1)
  have "team_ok t1" using resolve_hit_ok [of t rnd d k tcd i t1 k1 tcd1] Cons.prems(1) 1 st st1
    by simp
  then show ?case using Cons.IH [of st1] 2 st1 by simp
qed

lemma global_damage_ok: "team_ok t \<Longrightarrow> team_ok (global_damage t)"
  by (auto simp: team_ok_def global_damage_def list_all_iff intro: lose_health_ok)

lemma first_breach_ok: "team_ok t \<Longrightarrow> team_ok (first_breach t p)"
  unfolding first_breach_def
  by (intro global_damage_ok team_ok_update) (auto dest: team_ok_nth)

lemma process_incoming_attack_unfold:
  assumes "in_team t (target_position a)"
    and "p = nat (target_position a)"
    and "t1 = (if lower (guessed_identity a) = lower (name (t ! p)) \<and> \<not> revealed (t ! p)
               then first_breach t p else t)"
  shows "process_incoming_attack llm rnd t a =
          (case parse_skill_with_llm llm (skill a) (attacker_ap a) (health (t1 ! p)) of
             Inl e \<Rightarrow> Inl e
           | Inr None \<Rightarrow> Inr (t1, None)
           | Inr (Some parsed_skill) \<Rightarrow>
               (case determine_targets t1 p (attacker_ap a) parsed_skill of
                  Inl e \<Rightarrow> Inl e
                | Inr (targets, raw_damage) \<Rightarrow>
                    (case resolve_targets rnd raw_damage (t1, 0, 0) targets of
                       Inl e \<Rightarrow> Inl e
                     | Inr (t2, k, tcd) \<Rightarrow>
                         Inr (t2, Some (make_feedback t2 p
                                (lower (guessed_identity a) = lower (name (t ! p)))
                                (name (t ! p)) tcd)))))"
  unfolding process_incoming_attack_def Let_def assms(2,3)
  by (simp only: assms(1) simp_thms if_False)

lemma process_incoming_attack_ok:
  assumes "team_ok t" and "process_incoming_attack llm rnd t a = Inr (t', fb)"
  shows "team_ok t'"
proof (cases "in_team t (target_position a)")
  case False
  then show ?thesis using assms by (simp add: process_incoming_attack_def)
next
  case True
  define p where "p = nat (target_position a)"
  define t1 where "t1 = (if lower (guessed_identity a) = lower (name (t ! p)) \<and> \<not> revealed (t ! p)
                          then first_breach t p else t)"
  note run = process_incoming_attack_unfold [OF True p_def t1_def, of llm rnd]
  have t1: "team_ok t1" using assms(1) by (simp add: t1_def first_breach_ok)
  show ?thesis
  proof (cases "parse_skill_with_llm llm (skill a) (attacker_ap a) (health (t1 ! p))")
    case (Inl e)
    then show ?thesis using assms(2) unfolding run by simp
  next
    case (Inr r)
    show ?thesis
    proof (cases r)
      case None
      then show ?thesis using assms(2) Inr t1 unfolding run by simp
    next
      case (Some ps)
      from assms(2) obtain targets raw where
        dt: "determine_targets t1 p (attacker_ap a) ps = Inr (targets, raw)"
        unfolding run Inr Some by (cases "determine_targets t1 p (attacker_ap a) ps") auto
      from assms(2) obtain t2 k tcd where
        rt: "resolve_targets rnd raw (t1, 0, 0) targets = Inr (t2, k, tcd)"
        unfolding run Inr Some using dt
        by (cases "resolve_targets rnd raw (t1, 0, 0) targets") auto
      have "t' = t2" using assms(2) dt rt unfolding run Inr Some by simp
      then show ?thesis
        using resolve_targets_ok [of "(t1, 0, 0)" rnd raw targets "(t2, k, tcd)"] t1 rt
        by simp
    qed
  qed
qed


lemma execute_internal_skill_ok:
  assumes "team_ok t" and "execute_internal_skill t actor sk tgt = Inr t'"
  shows "team_ok t'"
proof (cases tgt)
  case None
  then show ?thesis using assms by (simp add: execute_internal_skill_def)
next
  case (Some target_id)
  have 1: "team_ok (t[nat target_id := lose_health 75 (t ! nat target_id)])"
    using assms(1) by (intro team_ok_update) (auto intro: lose_health_ok team_ok_nth)
  have 2: "\<And>u x. team_ok u \<Longrightarrow> team_ok (u[nat actor := (u ! nat actor)\<lparr>attack_power := x\<rparr>])"
    by (intro team_ok_update) (auto dest: team_ok_nth)
  have 3: "team_ok (t[nat target_id := (t ! nat target_id)
             \<lparr>subtle_shield := True, attack_power := attack_power (t ! nat target_id) + 20\<rparr>])"
    using assms(1) by (intro team_ok_update) (auto dest: team_ok_nth)
  show ?thesis
    using assms 1 2 3 Some
    by (auto simp: execute_internal_skill_def Let_def split: if_splits)
qed

lemma select_hero_for_turn_ok:
  assumes "team_ok t" and "select_hero_for_turn t reply = (dec, t')"
  shows "team_ok t'"
proof -
  have "t' = t \<or> (\<exists>actor sk tgt. execute_internal_skill t actor sk tgt = Inr t')"
    using assms(2)
    by (auto simp: select_hero_for_turn_def Let_def
          split: if_splits chain_reply.splits option.splits sum.splits)
  then show ?thesis using assms(1) execute_internal_skill_ok by blast
qed

lemma update_hero_stats_ok:
  "team_ok t \<Longrightarrow> 0 \<le> d \<Longrightarrow> team_ok (update_hero_stats t i d)"
  unfolding update_hero_stats_def
  by (auto intro!: team_ok_update lose_health_ok dest: team_ok_nth)

lemma perform_turn_ok:
  assumes "team_ok act" and "team_ok pas"
    and "perform_turn orc n s act pas = Inr (res, act', pas')"
  shows "team_ok act' \<and> team_ok pas'"
proof -
  obtain dec act1 where sel: "select_hero_for_turn act (manager_llm orc n s act) = (dec, act1)"
    by (cases "select_hero_for_turn act (manager_llm orc n s act)")
  have a1: "team_ok act1" using assms(1) sel by (rule select_hero_for_turn_ok)
  have "(act' = act1 \<or> (\<exists>i d. 0 < d \<and> act' = update_hero_stats act1 i d)) \<and>
        (pas' = pas \<or> (\<exists>llm rnd a fb. process_incoming_attack llm rnd pas a = Inr (pas', fb)))"
    using assms(3) unfolding perform_turn_def sel
    by (auto split: decision.splits option.splits lead_decision.splits sum.splits
          prod.splits if_splits)
  then show ?thesis
    using a1 assms(2) update_hero_stats_ok process_incoming_attack_ok
    by (metis less_imp_le)
qed

lemma battle_ok:
  "team_ok a \<Longrightarrow> team_ok b \<Longrightarrow> battle fuel orc n a b = Some (Inr (Some (a', b'))) \<Longrightarrow>
   team_ok a' \<and> team_ok b'"
proof (induction fuel arbitrary: n a b)
  case 0
  then show ?case by simp
next
  case (Suc fuel)
  from Suc.prems(3) obtain r1 a1 b1 where
    1: "perform_turn orc n TeamA a b = Inr (r1, a1, b1)"
    by (cases "perform_turn orc n TeamA a b") (auto split: prod.splits)
  have ok1: "team_ok a1 \<and> team_ok b1" using perform_turn_ok [OF Suc.prems(1,2) 1] .
  show ?case
  proof (cases r1)
    case TurnFailed
    then show ?thesis using Suc.prems(3) 1 by simp
  next
    case GameOver
    then show ?thesis using Suc.prems(3) 1 ok1 by simp
  next
    case Continue
    from Suc.prems(3) 1 Continue obtain r2 b2 a2 where
      2: "perform_turn orc n TeamB b1 a1 = Inr (r2, b2, a2)"
      by (cases "perform_turn orc n TeamB b1 a1") (auto split: prod.splits)
    have ok2: "team_ok b2 \<and> team_ok a2" using perform_turn_ok [OF _ _ 2] ok1 by simp
    show ?thesis
    proof (cases r2)
      case TurnFailed
      then show ?thesis using Suc.prems(3) 1 2 Continue by simp
    next
      case GameOver
      then show ?thesis using Suc.prems(3) 1 2 Continue ok2 by simp
    next
      case Continue2: Continue
      then have "battle fuel orc (n + 1) a2 b2 = Some (Inr (Some (a', b')))"
        using Suc.prems(3) 1 2 Continue by simp
      then show ?thesis using Suc.IH ok2 by blast
    qed
  qed
qed

lemma initialize_team_ok:
  assumes "list_all (\<lambda>e. case initial_health (snd e) of None \<Rightarrow> True | Some v \<Rightarrow> 0 < v) data"
  shows "team_ok (initialize_team data)"
proof -
  have "\<And>i e. (case initial_health (snd e) of None \<Rightarrow> True | Some v \<Rightarrow> 0 < v) \<Longrightarrow>
           health_ok (new_hero i e)"
    by (auto simp: new_hero_def health_ok_def split: prod.splits option.splits)
  then show ?thesis
    using assms
    by (simp add: team_ok_def initialize_team_def list_all_length nth_enumerate_eq)
qed


text \<open>
  C1 (amended).  The health invariant of a roster, \<open>0 \<le> health\<close> and \<open>health = 0\<close> exactly
  for the dead, holds after team initialization when every supplied initial health is
  positive (the default 400 is), and every later operation keeps it: the execution of an
  internal skill, action selection, the resolution of an incoming attack, the recoil
  (\<^verbatim>\<open>update_hero_stats\<close> with positive counter damage), a whole turn and a whole battle.
\<close>
theorem health_invariant:
  assumes "team_ok t"
    and "list_all (\<lambda>e. case initial_health (snd e) of None \<Rightarrow> True | Some v \<Rightarrow> 0 < v) data"
  shows "team_ok (initialize_team data) \<and>
         (execute_internal_skill t actor sk tgt = Inr t1 \<longrightarrow> team_ok t1) \<and>
         (select_hero_for_turn t reply = (dec, t2) \<longrightarrow> team_ok t2) \<and>
         (process_incoming_attack llm rnd t a = Inr (t3, fb) \<longrightarrow> team_ok t3) \<and>
         (0 < d \<longrightarrow> team_ok (update_hero_stats t i d)) \<and>
         (team_ok u \<and> perform_turn orc n s t u = Inr (res, t4, u4) \<longrightarrow> team_ok t4 \<and> team_ok u4) \<and>
         (team_ok u \<and> battle fuel orc n t u = Some (Inr (Some (t5, u5)))
            \<longrightarrow> team_ok t5 \<and> team_ok u5)"
proof (intro conjI impI)
  show "team_ok (initialize_team data)" using assms(2) by (rule initialize_team_ok)
  show "team_ok t1" if "execute_internal_skill t actor sk tgt = Inr t1"
    using assms(1) that by (rule execute_internal_skill_ok)
  show "team_ok t2" if "select_hero_for_turn t reply = (dec, t2)"
    using assms(1) that by (rule select_hero_for_turn_ok)
  show "team_ok t3" if "process_incoming_attack llm rnd t a = Inr (t3, fb)"
    using assms(1) that by (rule process_incoming_attack_ok)
  show "team_ok (update_hero_stats t i d)" if "0 < d"
    using assms(1) that by (simp add: update_hero_stats_ok)
  show "team_ok t4" "team_ok u4" if "team_ok u \<and> perform_turn orc n s t u = Inr (res, t4, u4)"
    using perform_turn_ok [OF assms(1), of u orc n s res t4 u4] that by simp_all
  show "team_ok t5" "team_ok u5"
    if "team_ok u \<and> battle fuel orc n t u = Some (Inr (Some (t5, u5)))"
    using battle_ok [OF assms(1), of u fuel orc n t5 u5] that by simp_all
qed

lemma plain_roster_ok: "team_ok plain_roster"
  by (simp add: team_ok_def health_ok_def plain_roster_eq)

lemma roster_b_data_positive:
  "list_all (\<lambda>e. case initial_health (snd e) of None \<Rightarrow> True | Some v \<Rightarrow> 0 < v) roster_b_data"
  by (simp add: roster_b_data_def pool_hero_def)

theorem health_invariant_witness:
  "team_ok plain_roster \<and>
   team_ok (initialize_team roster_b_data) \<and>
   (\<exists>t' fb. process_incoming_attack (parser_returning 500 False False) (\<lambda>k. 1 / 2) plain_roster
              (basic_attack 3 ''nord'') = Inr (t', Some fb) \<and>
            health (t' ! 3) = 0 \<and> team_ok t') \<and>
   team_ok (update_hero_stats plain_roster 0 30)"
proof -
  have "(0::int) < 500" by simp
  from explode_hit [OF explode_attack_facts explode_parse_fact this, of "\<lambda>k. 1 / 2"]
  obtain t' fb where r:
    "process_incoming_attack (parser_returning 500 False False) (\<lambda>k. 1 / 2) plain_roster
       (basic_attack 3 ''nord'') = Inr (t', Some fb)"
    "health (t' ! 3) = max 0 (health (plain_roster ! 3) - 500)"
    by blast
  have h: "health (t' ! 3) = 0" using r(2) by (simp add: bosmer_stats)
  have "(0::int) < 30" by simp
  with health_invariant [OF plain_roster_ok roster_b_data_positive,
      of 0 "''x''" None plain_roster ChainRaises Error plain_roster
         "parser_returning 500 False False" "\<lambda>k. 1 / 2" "basic_attack 3 ''nord''" t' "Some fb"
         30 0] r(1) h plain_roster_ok
  show ?thesis by blast
qed

theorem zero_difficulty_breaks_invariant:
  "\<exists>scaled. apply_difficulty_scaling roster_b_data 0 = Inr scaled \<and>
      health (initialize_team scaled ! 0) = 0 \<and>
      status (initialize_team scaled ! 0) = Alive \<and>
      \<not> team_ok (initialize_team scaled)"
  by (simp add: apply_difficulty_scaling_def roster_b_data_def pool_hero_def py_int_def
        float64_zero initialize_team_def enumerate_eq_zip new_hero_def upt_conv_Cons team_ok_def
        health_ok_def)

section \<open>Deflect\<close>

subsection \<open>Bounds on the float products\<close>

lemma bit_length_le: "n < 2 ^ k \<Longrightarrow> bit_length n \<le> k"
proof (cases "n = 0")
  case True
  then show ?thesis by (simp add: bit_length.simps)
next
  case False
  assume "n < 2 ^ k"
  then have "(2::nat) ^ (bit_length n - 1) < 2 ^ k"
    using bit_length_bounds [of n] False by linarith
  then have "bit_length n - 1 < k" by (simp add: power_strict_increasing_iff)
  then show ?thesis by linarith
qed

lemma round_half_even_bounds:
  "2 * (round_half_even p k * 2 ^ k) \<le> 2 * p + 2 ^ k \<and>
   2 * p \<le> 2 * (round_half_even p k * 2 ^ k) + 2 ^ k"
proof -
  define B :: nat where "B = 2 ^ k"
  define X where "X = p div B * B"
  define r where "r = p mod B"
  have p: "p = X + r" unfolding X_def r_def by (rule div_mult_mod_eq [symmetric])
  have m: "r < B" unfolding r_def B_def by simp
  have up: "(p div B + 1) * B = X + B" unfolding X_def by (simp add: algebra_simps)
  show ?thesis
  proof (cases "B < 2 * r \<or> (2 * r = B \<and> odd (p div B))")
    case True
    then have "round_half_even p k * 2 ^ k = X + B"
      using up by (simp add: round_half_even_def Let_def B_def [symmetric] r_def [symmetric])
    moreover have "B \<le> 2 * r" using True by linarith
    ultimately show ?thesis unfolding B_def [symmetric] using p m by linarith
  next
    case False
    then have "round_half_even p k * 2 ^ k = X"
      by (auto simp: round_half_even_def Let_def B_def [symmetric] r_def [symmetric] X_def)
    moreover have "2 * r \<le> B" using False by linarith
    ultimately show ?thesis unfolding B_def [symmetric] using p m by linarith
  qed
qed

lemma to_binary64_bounds:
  assumes "to_binary64 p = (m, k)"
  shows "2 ^ 53 * (m * 2 ^ k) \<le> 2 ^ 53 * p + p \<and> 2 ^ 53 * p \<le> 2 ^ 53 * (m * 2 ^ k) + p"
proof (cases "bit_length p \<le> 53")
  case True
  then show ?thesis using assms by (simp add: to_binary64_def)
next
  case False
  define j where "j = bit_length p - 53"
  have mk: "m = round_half_even p j" "k = j"
    using assms False by (auto simp: to_binary64_def j_def Let_def)
  have ppos: "0 < p" using False by (cases "p = 0") (simp_all add: bit_length.simps)
  have "bit_length p - 1 = j + 52" using False by (simp add: j_def)
  then have "(2::nat) ^ (j + 52) \<le> p" using bit_length_bounds [OF ppos] by simp
  then have big: "2 ^ 52 * (2::nat) ^ j \<le> p" by (simp add: power_add mult.commute)
  define W where "W = round_half_even p j * 2 ^ j"
  define B :: nat where "B = 2 ^ j"
  have rb: "2 * W \<le> 2 * p + B" "2 * p \<le> 2 * W + B"
    using round_half_even_bounds [of p j] by (simp_all add: W_def B_def)
  have big': "4503599627370496 * B \<le> p" using big by (simp add: B_def)
  have "9007199254740992 * W \<le> 9007199254740992 * p + p \<and>
        9007199254740992 * p \<le> 9007199254740992 * W + p"
    using rb big' by linarith
  then show ?thesis by (simp add: mk W_def)
qed


lemma py_int_mul_small:
  assumes "0 < d" and "d < 2 ^ 53" and "M < 2 ^ 53"
  shows "\<exists>W. py_int_mul d (M, E) = Inr (int (W div 2 ^ E)) \<and>
             2 ^ 53 * W \<le> 2 ^ 53 * (nat d * M) + nat d * M \<and>
             2 ^ 53 * (nat d * M) \<le> 2 ^ 53 * W + nat d * M"
proof -
  define n where "n = nat d"
  have n: "n < 2 ^ 53" "nat \<bar>d\<bar> = n" "sgn d = 1" using assms(1,2) by (simp_all add: n_def)
  have b1: "to_binary64 n = (n, 0)"
    using bit_length_le [OF n(1)] by (simp add: to_binary64_def)
  have small: "n * 2 ^ 0 < (2::nat) ^ 1024"
  proof -
    have "(2::nat) ^ 53 \<le> 2 ^ 1024" by (rule power_increasing) simp_all
    then show ?thesis using n(1) by simp
  qed
  obtain m2 k2 where b2: "to_binary64 (n * M) = (m2, k2)" by (cases "to_binary64 (n * M)")
  define W where "W = m2 * 2 ^ k2"
  note bounds = to_binary64_bounds [OF b2, folded W_def]
  have "n * M \<le> 2 ^ 53 * 2 ^ 53" using n(1) assms(3) by (intro mult_mono) simp_all
  then have pw: "n * M \<le> 2 ^ 106" by simp
  have "2 ^ 53 * W \<le> 2 ^ 53 * (n * M) + 2 ^ 53 * (n * M)" using bounds by simp
  then have "W \<le> 2 * (n * M)" by (simp add: mult.commute)
  then have "W \<le> 2 ^ 107" using pw by simp
  moreover have "(2::nat) ^ 107 < 2 ^ (1024 + E)" by (rule power_strict_increasing) simp_all
  ultimately have fin: "\<not> 2 ^ (1024 + E) \<le> m2 * 2 ^ (0 + k2)" by (simp add: W_def)
  have "py_int_mul d (M, E) = Inr (int (W div 2 ^ E))"
    using small fin by (simp add: py_int_mul_def n b1 b2 W_def)
  then show ?thesis using bounds by (auto simp: n_def)
qed

lemma py_int_mul_030_bounds:
  assumes "0 < d" and "d < 2 ^ 49"
  shows "\<exists>r. py_int_mul d c_030 = Inr r \<and> 10 * r \<le> 3 * d \<and> 3 * d \<le> 10 * r + 10"
proof -
  have d53: "d < 2 ^ 53" using assms(2) by simp
  obtain W where W: "py_int_mul d c_030 = Inr (int (W div 2 ^ 54))"
    "2 ^ 53 * W \<le> 2 ^ 53 * (nat d * 5404319552844595) + nat d * 5404319552844595"
    "2 ^ 53 * (nat d * 5404319552844595) \<le> 2 ^ 53 * W + nat d * 5404319552844595"
    using py_int_mul_small [OF assms(1) d53, of 5404319552844595 54] unfolding c_030_def
    by auto
  define r where "r = W div 2 ^ 54"
  define n where "n = nat d"
  have r: "r * 18014398509481984 \<le> W" "W < r * 18014398509481984 + 18014398509481984"
    using div_mult_mod_eq [of W "2 ^ 54"] by (simp_all add: r_def) 
  have n: "n < 562949953421312" "int n = d" using assms by (simp_all add: n_def)
  have "10 * r \<le> 3 * n \<and> 3 * n \<le> 10 * r + 10"
    using W(2,3) r n(1) unfolding n_def [symmetric] by simp
  then have "10 * int r \<le> 3 * d \<and> 3 * d \<le> 10 * int r + 10" using n(2) by linarith
  then show ?thesis using W(1) by (auto simp: r_def)
qed

lemma py_int_mul_070_bounds:
  assumes "0 < d" and "d < 2 ^ 49"
  shows "\<exists>r. py_int_mul d c_070 = Inr r \<and> 10 * r \<le> 7 * d \<and> 7 * d \<le> 10 * r + 10"
proof -
  have d53: "d < 2 ^ 53" using assms(2) by simp
  obtain W where W: "py_int_mul d c_070 = Inr (int (W div 2 ^ 53))"
    "2 ^ 53 * W \<le> 2 ^ 53 * (nat d * 6305039478318694) + nat d * 6305039478318694"
    "2 ^ 53 * (nat d * 6305039478318694) \<le> 2 ^ 53 * W + nat d * 6305039478318694"
    using py_int_mul_small [OF assms(1) d53, of 6305039478318694 53] unfolding c_070_def
    by auto
  define r where "r = W div 2 ^ 53"
  define n where "n = nat d"
  have r: "r * 9007199254740992 \<le> W" "W < r * 9007199254740992 + 9007199254740992"
    using div_mult_mod_eq [of W "2 ^ 53"] by (simp_all add: r_def) 
  have n: "n < 562949953421312" "int n = d" using assms by (simp_all add: n_def)
  have "10 * r \<le> 7 * n \<and> 7 * n \<le> 10 * r + 10"
    using W(2,3) r n(1) unfolding n_def [symmetric] by simp
  then have "10 * int r \<le> 7 * d \<and> 7 * d \<le> 10 * int r + 10" using n(2) by linarith
  then show ?thesis using W(1) by (auto simp: r_def)
qed


subsection \<open>The Deflect step\<close>

lemma length_share_damage [simp]: "length (share_damage per t mates) = length t"
  unfolding share_damage_def by (induction mates arbitrary: t) simp_all

lemma share_damage_nth:
  "distinct mates \<Longrightarrow> j < length t \<Longrightarrow>
   share_damage per t mates ! j = (if j \<in> set mates then lose_health per (t ! j) else t ! j)"
  unfolding share_damage_def
proof (induction mates arbitrary: t)
  case Nil
  then show ?case by simp
next
  case (Cons m mates)
  have "foldl (\<lambda>t' j. t'[j := lose_health per (t' ! j)]) (t[m := lose_health per (t ! m)]) mates ! j
      = (if j \<in> set mates then lose_health per (t[m := lose_health per (t ! m)] ! j)
         else t[m := lose_health per (t ! m)] ! j)"
    using Cons.prems by (intro Cons.IH) simp_all
  moreover have "j \<in> set mates \<Longrightarrow> j \<noteq> m" using Cons.prems(1) by auto
  ultimately show ?case using Cons.prems by (cases "j = m") (auto simp: nth_list_update)
qed

lemma alive_mates_by_position:
  "\<forall>j < length t. idx (t ! j) = j \<Longrightarrow> i < length t \<Longrightarrow>
   alive_mates t (t ! i) = filter (\<lambda>j. status (t ! j) = Alive \<and> j \<noteq> i) [0..<length t]"
  unfolding alive_mates_def by (rule filter_cong) auto

lemma deflect_shares:
  assumes "\<forall>j < length t. idx (t ! j) = j" and "i < length t"
    and "passive_has ''deflect'' (t ! i)"
    and "\<not> passive_has ''reduce'' (t ! i) \<or> 3 / 10 \<le> rnd k"
    and "0 < d" and "d < 2 ^ 49"
    and "mates = filter (\<lambda>j. status (t ! j) = Alive \<and> j \<noteq> i) [0..<length t]"
    and "mates \<noteq> []"
  shows "\<exists>t' k' r s.
           reduce_deflect_step rnd t k i d = Inr (t', k', r) \<and>
           py_int_mul d c_030 = Inr r \<and> py_int_mul d c_070 = Inr s \<and>
           10 * r \<le> 3 * d \<and> 3 * d \<le> 10 * r + 10 \<and>
           10 * s \<le> 7 * d \<and> 7 * d \<le> 10 * s + 10 \<and>
           length t' = length t \<and>
           (\<forall>j < length t.
              t' ! j = (if j \<in> set mates
                        then check_death ((t ! j)\<lparr>health :=
                               health (t ! j) - s div int (length mates)\<rparr>)
                        else t ! j)) \<and>
           r + int (length mates) * (s div int (length mates)) \<le> d \<and>
           d \<le> r + int (length mates) * (s div int (length mates)) + int (length mates) + 1"
proof -
  obtain r where r: "py_int_mul d c_030 = Inr r" "10 * r \<le> 3 * d" "3 * d \<le> 10 * r + 10"
    using py_int_mul_030_bounds [OF assms(5,6)] by blast
  obtain s where s: "py_int_mul d c_070 = Inr s" "10 * s \<le> 7 * d" "7 * d \<le> 10 * s + 10"
    using py_int_mul_070_bounds [OF assms(5,6)] by blast
  define n where "n = int (length mates)"
  define per where "per = s div n"
  have npos: "0 < n" using assms(8) by (simp add: n_def)
  have am: "alive_mates t (t ! i) = mates"
    using alive_mates_by_position [OF assms(1,2)] assms(7) by simp
  have ds: "deflect_step t i d = Inr (share_damage per t mates, r)"
    using assms(3,5,8) by (simp add: deflect_step_def r(1) s(1) am per_def n_def)
  define k' where "k' = (if passive_has ''reduce'' (t ! i) then k + 1 else k)"
  have run: "reduce_deflect_step rnd t k i d = Inr (share_damage per t mates, k', r)"
    using assms(4) by (auto simp: reduce_deflect_step_def ds k'_def)
  have dist: "distinct mates" unfolding assms(7) by simp
  have nth: "\<forall>j < length t. share_damage per t mates ! j =
       (if j \<in> set mates then check_death ((t ! j)\<lparr>health := health (t ! j) - per\<rparr>) else t ! j)"
    using share_damage_nth [OF dist] by (simp add: lose_health_def)
  have m: "s = n * per + s mod n" unfolding per_def by simp
  have m2: "0 \<le> s mod n" "s mod n < n" using npos by simp_all
  define X where "X = n * per"
  have "r + X \<le> d \<and> d \<le> r + X + n + 1"
    using r(2,3) s(2,3) m m2 unfolding X_def [symmetric] by linarith
  then show ?thesis
    using run r s nth unfolding X_def per_def n_def by auto
qed

text \<open>
  C3 (amended).  A hit on a hero whose passive holds "deflect", with a damage
  \<open>0 < d < 2 ^ 49\<close> left after the Reduce step and \<open>n \<ge> 1\<close> other heroes alive: the hero's
  damage-to-take becomes \<^verbatim>\<open>int(d * 0.30)\<close>, every other alive hero at once loses
  \<^verbatim>\<open>int(d * 0.70) // n\<close> health and is death-checked, and nobody else changes.  The two
  products are float products truncated: each lies at most 1 below the exact 30% and
  70% of \<open>d\<close>, so the retained damage plus the distributed damage is at most \<open>d\<close> and
  at least \<open>d - n - 1\<close>.  It is not \<open>d\<close> less the remainders of the integer divisions:
  for \<open>d = 90\<close> and three teammates no integer division leaves a remainder, and 3 damage
  is lost, since \<^verbatim>\<open>int(90 * 0.70)\<close> is 62.
\<close>
theorem deflect_conservation:
  assumes "\<forall>j < length t. idx (t ! j) = j" and "i < length t"
    and "passive_has ''deflect'' (t ! i)"
    and "\<not> passive_has ''reduce'' (t ! i) \<or> 3 / 10 \<le> rnd k"
    and "0 < d" and "d < 2 ^ 49"
    and "mates = filter (\<lambda>j. status (t ! j) = Alive \<and> j \<noteq> i) [0..<length t]"
    and "mates \<noteq> []"
  shows "\<exists>t' k' r s.
           reduce_deflect_step rnd t k i d = Inr (t', k', r) \<and>
           py_int_mul d c_030 = Inr r \<and> py_int_mul d c_070 = Inr s \<and>
           10 * r \<le> 3 * d \<and> 3 * d \<le> 10 * r + 10 \<and>
           10 * s \<le> 7 * d \<and> 7 * d \<le> 10 * s + 10 \<and>
           length t' = length t \<and>
           (\<forall>j < length t.
              t' ! j = (if j \<in> set mates
                        then check_death ((t ! j)\<lparr>health :=
                               health (t ! j) - s div int (length mates)\<rparr>)
                        else t ! j)) \<and>
           r + int (length mates) * (s div int (length mates)) \<le> d \<and>
           d \<le> r + int (length mates) * (s div int (length mates)) + int (length mates) + 1"
  using assms by (rule deflect_shares)

lemma trio_roster_eq:
  "trio_roster =
     [hero_at 0 ''Redguard'' deflect_text 400 Alive, hero_at 1 ''Argonian'' counter_text 400 Alive,
      hero_at 2 ''Khajit'' counter_text 400 Alive, hero_at 3 ''Nord'' reduce_text 0 Dead]"
  by (simp add: trio_roster_def roster_a_eq)

lemma trio_roster_facts:
  "\<forall>j < length trio_roster. idx (trio_roster ! j) = j"
  "0 < length trio_roster"
  "passive_has ''deflect'' (trio_roster ! 0)"
  "\<not> passive_has ''reduce'' (trio_roster ! 0)"
  "filter (\<lambda>j. status (trio_roster ! j) = Alive \<and> j \<noteq> 0) [0..<length trio_roster] = [1, 2]"
proof -
  show "\<forall>j < length trio_roster. idx (trio_roster ! j) = j"
    by (auto simp: trio_roster_eq hero_at_def less_Suc_eq numeral_eq_Suc)
  show "0 < length trio_roster" by (simp add: trio_roster_eq)
  show "passive_has ''deflect'' (trio_roster ! 0)"
    "\<not> passive_has ''reduce'' (trio_roster ! 0)"
    by (simp_all add: trio_roster_eq hero_at_def passive_has_def text_kinds)
  show "filter (\<lambda>j. status (trio_roster ! j) = Alive \<and> j \<noteq> 0) [0..<length trio_roster] = [1, 2]"
    by (simp add: trio_roster_eq hero_at_def upt_conv_Cons)
qed

lemma py_int_mul_deflect_values:
  "py_int_mul 100 c_030 = Inr 30" "py_int_mul 100 c_070 = Inr 70"
  "py_int_mul 90 c_030 = Inr 27" "py_int_mul 90 c_070 = Inr 62"
  by (simp_all add: py_int_mul_def c_030_def c_070_def to_binary64_def
        bit_length.simps round_half_even_def)

theorem deflect_conservation_witness:
  "\<exists>t' k'. reduce_deflect_step (\<lambda>k. 1 / 2) trio_roster 0 0 100 = Inr (t', k', 30) \<and>
     py_int_mul 100 c_070 = Inr 70 \<and>
     t' ! 0 = trio_roster ! 0 \<and> health (t' ! 1) = 365 \<and> health (t' ! 2) = 365 \<and>
     t' ! 3 = trio_roster ! 3"
proof -
  have d: "(0::int) < 100" "(100::int) < 2 ^ 49" by simp_all
  have m: "[1, 2] = filter (\<lambda>j. status (trio_roster ! j) = Alive \<and> j \<noteq> 0) [0..<length trio_roster]"
    "[1::nat, 2] \<noteq> []"
    by (simp_all only: trio_roster_facts(5) list.simps simp_thms)
  have nr: "\<not> passive_has ''reduce'' (trio_roster ! 0) \<or> 3 / 10 \<le> (\<lambda>k::nat. 1 / 2 :: real) 0"
    using trio_roster_facts(4) by simp
  from deflect_conservation [OF trio_roster_facts(1,2,3) nr d m]
  obtain t' k' r s where r:
    "reduce_deflect_step (\<lambda>k. 1 / 2) trio_roster 0 0 100 = Inr (t', k', r)"
    "py_int_mul 100 c_030 = Inr r" "py_int_mul 100 c_070 = Inr s"
    "\<forall>j < length trio_roster.
        t' ! j = (if j \<in> set [1, 2]
                  then check_death ((trio_roster ! j)\<lparr>health :=
                         health (trio_roster ! j) - s div int (length [1::nat, 2])\<rparr>)
                  else trio_roster ! j)"
    by blast
  have rs: "r = 30" "s = 70" using r(2,3) by (simp_all add: py_int_mul_deflect_values)
  have l: "length trio_roster = 4" by (simp add: trio_roster_eq)
  have "t' ! 0 = trio_roster ! 0" "t' ! 3 = trio_roster ! 3"
    "t' ! 1 = check_death ((trio_roster ! 1)\<lparr>health := health (trio_roster ! 1) - 35\<rparr>)"
    "t' ! 2 = check_death ((trio_roster ! 2)\<lparr>health := health (trio_roster ! 2) - 35\<rparr>)"
    using r(4) unfolding l rs by simp_all
  then have "t' ! 0 = trio_roster ! 0" "t' ! 3 = trio_roster ! 3"
    "health (t' ! 1) = 365" "health (t' ! 2) = 365"
    by (simp_all add: trio_roster_eq hero_at_def check_death_def)
  then show ?thesis using r(1) rs py_int_mul_deflect_values(2) by blast
qed

theorem deflect_loses_up_to_float_rounding:
  "py_int_mul 90 c_030 = Inr 27 \<and> py_int_mul 90 c_070 = Inr 62 \<and>
   (\<exists>t'. reduce_deflect_step (\<lambda>k. 1 / 2) (initialize_team roster_a_data) 0 0 90
            = Inr (t', 0, 27) \<and>
          map health t' = [400, 380, 380, 380]) \<and>
   (\<exists>t' fb. process_incoming_attack (parser_returning 90 False False) (\<lambda>k. 1 / 2)
               (initialize_team roster_a_data)
               \<lparr> target_position = 0, guessed_identity = ''Breton'', skill = ''Basic Attack'',
                 attacker_ap = 200 \<rparr> = Inr (t', Some fb) \<and>
             map health t' = [373, 380, 380, 380] \<and>
             get_total_team_health (initialize_team roster_a_data) - get_total_team_health t'
               = 87) \<and>
   (3 * 90 :: int) = 10 * 27 \<and> (7 * 90 :: int) = 10 * 63 \<and> (63 :: int) = 3 * 21 \<and>
   (27 + 3 * 21 :: int) = 90"
proof -
  have "\<exists>t'. reduce_deflect_step (\<lambda>k. 1 / 2) (initialize_team roster_a_data) 0 0 90
            = Inr (t', 0, 27) \<and>
          map health t' = [400, 380, 380, 380]"
    by (simp add: py_int_mul_deflect_values roster_a_eq hit_defs hero_at_def)
  moreover have "\<exists>t' fb. process_incoming_attack (parser_returning 90 False False) (\<lambda>k. 1 / 2)
               (initialize_team roster_a_data)
               \<lparr> target_position = 0, guessed_identity = ''Breton'', skill = ''Basic Attack'',
                 attacker_ap = 200 \<rparr> = Inr (t', Some fb) \<and>
             map health t' = [373, 380, 380, 380] \<and>
             get_total_team_health (initialize_team roster_a_data) - get_total_team_health t'
               = 87"
    by (simp add: attack_defs py_int_mul_200_140 py_int_mul_deflect_values lower_names
          roster_a_eq hit_defs hero_at_def get_total_team_health_def)
  ultimately show ?thesis by (simp add: py_int_mul_deflect_values)
qed

end
